theory Spec2Isabelle
  imports Main "HOL-Library.Sublist" "HOL-Library.AList"
begin

section \<open>JSON values and JavaScript strings\<close>

text \<open>
  Schemas, request parts and error parameters are JSON-like JavaScript values. An object
  is an association list of its own keys, each once, in their enumeration order (the order
  of \<^verbatim>\<open>Object.keys\<close> and \<^verbatim>\<open>for ... in\<close>; JavaScript puts keys that are array indices first, and
  no key of a schema or of a media type map is one). A key is looked up with \<open>map_of\<close>.
  Numbers are integers here: nothing below depends on fractions.
\<close>

datatype json =
    JNull
  | JBool bool
  | JNum int
  | JStr string
  | JArr "json list"
  | JObj "(string \<times> json) list"

text \<open>JavaScript truthiness of a value that is present.\<close>

fun truthy :: "json \<Rightarrow> bool" where
  "truthy JNull = False"
| "truthy (JBool b) = b"
| "truthy (JNum n) = (n \<noteq> 0)"
| "truthy (JStr s) = (s \<noteq> [])"
| "truthy (JArr xs) = True"
| "truthy (JObj kvs) = True"

text \<open>Truthiness of a member that may be missing (\<^verbatim>\<open>undefined\<close> is falsy).\<close>

definition truthy_opt :: "json option \<Rightarrow> bool" where
  "truthy_opt v = (case v of None \<Rightarrow> False | Some j \<Rightarrow> truthy j)"

text \<open>\<^verbatim>\<open>s.replace(/^p/, r)\<close> for a literal prefix \<open>p\<close>: only a match at the start is replaced.\<close>

definition replace_prefix :: "string \<Rightarrow> string \<Rightarrow> string \<Rightarrow> string" where
  "replace_prefix p r s = (if prefix p s then r @ drop (length p) s else s)"

text \<open>\<^verbatim>\<open>s.replace(/^p\.?/, '')\<close>: the prefix and, when it follows, one dot.\<close>

definition strip_prefix_dot :: "string \<Rightarrow> string \<Rightarrow> string" where
  "strip_prefix_dot p s =
     (if prefix p s
      then (let t = drop (length p) s in if prefix ''.'' t then drop 1 t else t)
      else s)"

text \<open>
  \<^verbatim>\<open>k.indexOf(c)\<close>: the first position at which \<open>c\<close> occurs in \<open>k\<close>, or \<open>-1\<close>.
\<close>

fun indexOf :: "string \<Rightarrow> string \<Rightarrow> int" where
  "indexOf [] c = (if c = [] then 0 else -1)"
| "indexOf (x # xs) c =
     (if prefix c (x # xs) then 0
      else (let i = indexOf xs c in if i = -1 then -1 else i + 1))"

text \<open>\<^verbatim>\<open>s.split('/')\<close>: the segments between the slashes, at least one.\<close>

fun split_slash :: "string \<Rightarrow> string list" where
  "split_slash [] = [[]]"
| "split_slash (c # cs) =
     (if c = CHR ''/'' then [] # split_slash cs
      else (case split_slash cs of
              [] \<Rightarrow> [[c]]
            | seg # segs \<Rightarrow> (c # seg) # segs))"

text \<open>Reading an array at an index: \<^verbatim>\<open>undefined\<close> out of range.\<close>

definition at_index :: "'a list \<Rightarrow> nat \<Rightarrow> 'a option" where
  "at_index xs i = (if i < length xs then Some (xs ! i) else None)"

section \<open>Error mapping\<close>

text \<open>
  A violation as the validation engine reports it (\<^verbatim>\<open>Ajv.ErrorObject\<close>), with the
  \<^verbatim>\<open>location\<close> that \<^verbatim>\<open>withAddedLocation\<close> writes into it. Of \<^verbatim>\<open>params\<close> the two
  members the mapper reads are kept.
\<close>

record ajv_error =
  keyword :: string
  dataPath :: string
  missingProperty :: "string option"
  ref :: "string option"
  message :: string
  location :: "string option"

text \<open>The public error shape, \<^verbatim>\<open>OpenAPIRequestValidatorError\<close>; a deleted member is \<open>None\<close>.\<close>

record validation_error =
  ve_path :: "string option"
  ve_errorCode :: "string option"
  ve_message :: string
  ve_location :: "string option"
  ve_schema :: "json option"

definition stripBodyInfo :: "validation_error \<Rightarrow> validation_error" where
  "stripBodyInfo error =
     (if ve_location error = Some ''body''
      then error\<lparr>
             ve_path := (case ve_path error of
                           Some p \<Rightarrow> Some (replace_prefix ''body.'' [] p)
                         | None \<Rightarrow> None),
             ve_message :=
               replace_prefix ''instance.body '' ''instance ''
                 (replace_prefix ''instance.body.'' ''instance.'' (ve_message error))\<rparr>
      else error)"

definition toOpenapiValidationError :: "ajv_error \<Rightarrow> validation_error" where
  "toOpenapiValidationError error =
     (let path0 = ''instance'' @ dataPath error;
          path1 = (case missingProperty error of
                     Some mp \<Rightarrow> if mp \<noteq> [] then path0 @ ''.'' @ mp else path0
                   | None \<Rightarrow> path0);
          path2 = (if location error = Some ''body''
                   then strip_prefix_dot ''instance.body'' path1
                   else strip_prefix_dot ''instance'' path1)
      in stripBodyInfo
           \<lparr> ve_path = (if path2 = [] then None else Some path2),
             ve_errorCode = (if keyword error = ''$ref'' then None
                             else Some (keyword error @ ''.openapi.validation'')),
             ve_message = message error,
             ve_location = location error,
             ve_schema = (if keyword error = ''$ref''
                          then Some (JObj (case ref error of
                                             Some r \<Rightarrow> [(''$ref'', JStr r)]
                                           | None \<Rightarrow> []))
                          else None) \<rparr>)"

definition withAddedLocation :: "string \<Rightarrow> ajv_error list \<Rightarrow> ajv_error list" where
  "withAddedLocation loc errors = map (\<lambda>error. error\<lparr>location := Some loc\<rparr>) errors"

text \<open>
  The mapper used when the caller gives an \<^verbatim>\<open>errorTransformer\<close>. The source lets the transformer
  return anything; here it returns the public error shape.
\<close>

definition extendedErrorMapper ::
  "(validation_error \<Rightarrow> ajv_error \<Rightarrow> validation_error) \<Rightarrow> ajv_error \<Rightarrow> validation_error" where
  "extendedErrorMapper mapper ajvError = mapper (toOpenapiValidationError ajvError) ajvError"


section \<open>Outcomes of JavaScript code\<close>

text \<open>
  What a call can throw: a \<^verbatim>\<open>TypeError\<close> of the language itself (a member read of
  \<^verbatim>\<open>undefined\<close>, \<^verbatim>\<open>in\<close> applied to a primitive, a call of something that is no function),
  a failure of the content-type parser that \<^verbatim>\<open>getSchemaForMediaType\<close> rethrows, the
  configuration errors of the constructor, and whatever the engine throws. A call that throws
  is \<open>Inl\<close>.
\<close>

datatype thrown =
    TypeError
  | ContentTypeFailure string
  | ConfigurationError string
  | EngineError string

definition then_do :: "thrown + 'a \<Rightarrow> ('a \<Rightarrow> thrown + 'b) \<Rightarrow> thrown + 'b" where
  "then_do m f = (case m of Inl e \<Rightarrow> Inl e | Inr x \<Rightarrow> f x)"

text \<open>\<^verbatim>\<open>xs.map(f)\<close> and \<^verbatim>\<open>xs.forEach(f)\<close> for an \<open>f\<close> that can throw: the first throw ends the loop.\<close>

fun map_thrown :: "('a \<Rightarrow> thrown + 'b) \<Rightarrow> 'a list \<Rightarrow> thrown + 'b list" where
  "map_thrown f [] = Inr []"
| "map_thrown f (x # xs) =
     (case f x of
        Inl e \<Rightarrow> Inl e
      | Inr y \<Rightarrow> (case map_thrown f xs of Inl e \<Rightarrow> Inl e | Inr ys \<Rightarrow> Inr (y # ys)))"

section \<open>Media type selection\<close>

text \<open>
  The content-type parser (\<^verbatim>\<open>require('content-type').parse\<close>) is outside the repository and
  is a parameter: on a header value it gives the normalised \<^verbatim>\<open>type/subtype\<close>, or throws the
  \<^verbatim>\<open>TypeError\<close> with message \<^verbatim>\<open>invalid media type\<close>, or throws something else.
\<close>

datatype parsed_type =
    Parsed string
  | InvalidMediaType
  | OtherFailure string

type_synonym contentTypeParser = "string \<Rightarrow> parsed_type"

text \<open>
  An OpenAPI v3 \<^verbatim>\<open>requestBody\<close>: the \<^verbatim>\<open>required\<close> flag, when given, and \<^verbatim>\<open>content\<close>, which maps
  each media type key to the \<^verbatim>\<open>schema\<close> of its media type object, in registration order.
\<close>

record requestBodyObject =
  required :: "bool option"
  content :: "(string \<times> json) list"

definition subTypeWildCardPoints :: nat where
  "subTypeWildCardPoints = 2"

definition wildcardMatchPoints :: nat where
  "wildcardMatchPoints = 1"

text \<open>
  The \<^verbatim>\<open>for ... in\<close> loop over the media type keys, with the loop variables \<^verbatim>\<open>match\<close> and
  \<^verbatim>\<open>matchPoints\<close> as arguments. The \<^verbatim>\<open>return\<close> inside the loop ends it; \<^verbatim>\<open>continue\<close> and the
  end of the body go on with the next key.
\<close>

fun mediaType_loop :: "string \<Rightarrow> string list \<Rightarrow> string option \<Rightarrow> nat \<Rightarrow> string option" where
  "mediaType_loop contentType [] match matchPoints = match"
| "mediaType_loop contentType (mediaTypeKey # keys) match matchPoints =
     (if indexOf mediaTypeKey contentType > -1 then Some mediaTypeKey
      else
        (let (match1, matchPoints1) =
               (if mediaTypeKey = ''*/*'' \<and> wildcardMatchPoints > matchPoints
                then (Some mediaTypeKey, wildcardMatchPoints)
                else (match, matchPoints));
             contentTypeParts = split_slash contentType;
             mediaTypeKeyParts = split_slash mediaTypeKey
         in if at_index mediaTypeKeyParts 1 \<noteq> Some ''*''
            then mediaType_loop contentType keys match1 matchPoints1
            else if at_index contentTypeParts 0 = at_index mediaTypeKeyParts 0
                    \<and> subTypeWildCardPoints > matchPoints1
            then mediaType_loop contentType keys (Some mediaTypeKey) subTypeWildCardPoints
            else mediaType_loop contentType keys match1 matchPoints1))"

definition getSchemaForMediaType ::
  "contentTypeParser \<Rightarrow> string option \<Rightarrow> requestBodyObject \<Rightarrow> thrown + string option" where
  "getSchemaForMediaType parse contentTypeHeader requestBodySpec =
     (case contentTypeHeader of
        None \<Rightarrow> Inr None
      | Some header \<Rightarrow>
          if header = [] then Inr None
          else (case parse header of
                  InvalidMediaType \<Rightarrow> Inr None
                | OtherFailure msg \<Rightarrow> Inl (ContentTypeFailure msg)
                | Parsed contentType \<Rightarrow>
                    Inr (mediaType_loop contentType (map fst (content requestBodySpec)) None 0)))"

text \<open>
  The selection as the specification words it. A key scores 2 when it is the subtype
  wildcard \<^verbatim>\<open>type/*\<close> of the parsed type, 1 when it is \<^verbatim>\<open>*/*\<close>, and 0 otherwise; the first key
  that contains the parsed media type wins outright, otherwise the first key with the top
  score, and nothing when that score is 0. (\<open>sublist c k\<close>: \<open>c\<close> occurs in \<open>k\<close> as a substring.)
\<close>

definition spec_score :: "string \<Rightarrow> string \<Rightarrow> nat" where
  "spec_score contentType key =
     (if key = hd (split_slash contentType) @ ''/*'' then 2
      else if key = ''*/*'' then 1
      else 0)"

definition spec_mediaType :: "string \<Rightarrow> string list \<Rightarrow> string option" where
  "spec_mediaType contentType keys =
     (case find (\<lambda>key. sublist contentType key) keys of
        Some key \<Rightarrow> Some key
      | None \<Rightarrow>
          (let best = fold max (map (spec_score contentType) keys) 0
           in if best = 0 then None
              else find (\<lambda>key. spec_score contentType key = best) keys))"

section \<open>Header names\<close>

text \<open>
  \<^verbatim>\<open>toLowerCase\<close>. A character of the model is a code unit below 256. Of these JavaScript moves
  the letters \<^verbatim>\<open>A\<close> to \<^verbatim>\<open>Z\<close> to \<^verbatim>\<open>a\<close> to \<^verbatim>\<open>z\<close>, and the capitals at 192 to 222, the
  multiplication sign at 215 apart, to the small letters 32 places further on; every other
  character stays.
\<close>

definition upper_letters :: string where
  "upper_letters = ''ABCDEFGHIJKLMNOPQRSTUVWXYZ''"

definition lower_letters :: string where
  "lower_letters = ''abcdefghijklmnopqrstuvwxyz''"

definition toLowerCase_char :: "char \<Rightarrow> char" where
  "toLowerCase_char c =
     (case map_of (zip upper_letters lower_letters) c of
        Some l \<Rightarrow> l
      | None \<Rightarrow>
          (let n = (of_char c :: nat)
           in if (192 \<le> n \<and> n \<le> 214) \<or> (216 \<le> n \<and> n \<le> 222)
              then char_of (n + 32) else c))"

definition toLowerCase :: "string \<Rightarrow> string" where
  "toLowerCase s = map toLowerCase_char s"

text \<open>
  \<^verbatim>\<open>o[k] = v\<close> on an object is \<open>AList.update\<close>: a key that is there keeps its place, a new
  key goes to the end. \<^verbatim>\<open>delete o[k]\<close> is \<open>AList.delete\<close>.
\<close>

definition lowercaseRequestHeaders :: "(string \<times> 'v) list \<Rightarrow> (string \<times> 'v) list" where
  "lowercaseRequestHeaders headers =
     fold (\<lambda>(header, v) lowerCasedHeaders. AList.update (toLowerCase header) v lowerCasedHeaders)
       headers []"

text \<open>Reading a member of a value: \<^verbatim>\<open>undefined\<close> (\<open>None\<close>) when the value has no such member.\<close>

fun get_member :: "json \<Rightarrow> string \<Rightarrow> json option" where
  "get_member (JObj kvs) k = map_of kvs k"
| "get_member j k = None"

text \<open>
  The schema the parameter converter builds for the header parameters: \<^verbatim>\<open>properties\<close>, keyed
  by parameter name, and \<^verbatim>\<open>required\<close>, the names of the required ones, when there are any.
\<close>

record headersSchemaObject =
  hs_properties :: "(string \<times> json) list"
  hs_required :: "string list option"

text \<open>
  The loop of \<^verbatim>\<open>lowercasedHeaders\<close> over the keys that \<^verbatim>\<open>properties\<close> had when it started: each
  is deleted and stored again under its lowercase name. (A key of that list is always still
  there when its turn comes: only its own turn deletes it.)
\<close>

definition lowercase_property :: "string \<Rightarrow> (string \<times> json) list \<Rightarrow> (string \<times> json) list" where
  "lowercase_property header properties =
     (case map_of properties header of
        None \<Rightarrow> properties
      | Some property \<Rightarrow> AList.update (toLowerCase header) property (AList.delete header properties))"

definition lowercasedHeaders :: "headersSchemaObject option \<Rightarrow> headersSchemaObject option" where
  "lowercasedHeaders headersSchema =
     (case headersSchema of
        None \<Rightarrow> None
      | Some hs \<Rightarrow>
          Some \<lparr> hs_properties =
                   fold lowercase_property (map fst (hs_properties hs)) (hs_properties hs),
                 hs_required =
                   (case hs_required hs of
                      None \<Rightarrow> None
                    | Some rs \<Rightarrow> if rs \<noteq> [] then Some (map toLowerCase rs) else Some rs) \<rparr>)"

text \<open>The header schema as the JSON object that is handed to the engine.\<close>

definition headersSchema_json :: "headersSchemaObject \<Rightarrow> json" where
  "headersSchema_json hs =
     JObj ((''properties'', JObj (hs_properties hs)) #
           (case hs_required hs of
              None \<Rightarrow> []
            | Some rs \<Rightarrow> [(''required'', JArr (map JStr rs))]))"

section \<open>Schema normalisation\<close>

text \<open>
  \<^verbatim>\<open>k in v\<close> for the member names the code asks for (none of them is a member of an array):
  a \<^verbatim>\<open>TypeError\<close> on a primitive.
\<close>

fun has_key :: "string \<Rightarrow> json \<Rightarrow> thrown + bool" where
  "has_key k (JObj kvs) = Inr (map_of kvs k \<noteq> None)"
| "has_key k (JArr xs) = Inr False"
| "has_key k j = Inl TypeError"

text \<open>The decimal name of an array index, as \<^verbatim>\<open>Object.keys\<close> gives it.\<close>

fun index_name :: "nat \<Rightarrow> string" where
  "index_name n =
     (if n < 10 then [char_of (48 + n)]
      else index_name (n div 10) @ [char_of (48 + n mod 10)])"

text \<open>
  \<^verbatim>\<open>Object.keys(v)\<close> together with the members: the entries of an object, the elements of
  an array or the characters of a string under their indices, nothing for a number or a
  boolean, a \<^verbatim>\<open>TypeError\<close> for \<^verbatim>\<open>null\<close>.
\<close>

fun entries :: "json \<Rightarrow> thrown + (string \<times> json) list" where
  "entries (JObj kvs) = Inr kvs"
| "entries (JArr xs) = Inr (zip (map index_name [0..<length xs]) xs)"
| "entries (JStr s) = Inr (zip (map index_name [0..<length s]) (map (\<lambda>c. JStr [c]) s))"
| "entries JNull = Inl TypeError"
| "entries j = Inr []"

text \<open>
  \<^verbatim>\<open>xs.indexOf(v)\<close> on an array, for a string \<open>v\<close>: strict equality is equality of the
  strings.
\<close>

fun array_indexOf :: "json list \<Rightarrow> json \<Rightarrow> int" where
  "array_indexOf [] v = -1"
| "array_indexOf (x # xs) v =
     (if x = v then 0
      else (let i = array_indexOf xs v in if i = -1 then -1 else i + 1))"

text \<open>
  \<^verbatim>\<open>xs.splice(index, 1)\<close>: a negative index counts from the end of the array (and not below
  its start), an index behind the end removes nothing.
\<close>

definition splice1 :: "int \<Rightarrow> 'a list \<Rightarrow> 'a list" where
  "splice1 index xs =
     (let len = int (length xs);
          start = (if index < 0 then max (len + index) 0 else min index len)
      in take (nat start) xs @ drop (nat start + 1) xs)"

text \<open>The callback of the \<^verbatim>\<open>map\<close> in \<^verbatim>\<open>sanitizeReadonlyPropertiesFromRequired\<close>.\<close>

definition readOnly_key :: "string \<times> json \<Rightarrow> thrown + string option" where
  "readOnly_key entry =
     (case entry of (key, prop) \<Rightarrow>
        if truthy prop
        then then_do (has_key ''readOnly'' prop)
               (\<lambda>present. Inr (if present \<and> get_member prop ''readOnly'' = Some (JBool True)
                                then Some key else None))
        else Inr None)"

text \<open>
  The \<^verbatim>\<open>forEach\<close> over the read-only names: each is looked up in \<^verbatim>\<open>required\<close> and one element
  is spliced out at the index found. \<^verbatim>\<open>required\<close> has \<^verbatim>\<open>indexOf\<close> and \<^verbatim>\<open>splice\<close> only when it is an
  array.
\<close>

fun remove_readOnly :: "string list \<Rightarrow> json \<Rightarrow> thrown + json" where
  "remove_readOnly [] req = Inr req"
| "remove_readOnly (v # vs) (JArr rs) =
     remove_readOnly vs (JArr (splice1 (array_indexOf rs (JStr v)) rs))"
| "remove_readOnly (v # vs) req = Inl TypeError"

text \<open>
  The function changes \<^verbatim>\<open>schema.required\<close> in place and returns the schema it was given; the
  model returns that schema in its new state.
\<close>

definition sanitizeReadonlyPropertiesFromRequired :: "json \<Rightarrow> thrown + json" where
  "sanitizeReadonlyPropertiesFromRequired schema =
     then_do (has_key ''properties'' schema) (\<lambda>hasProperties.
     then_do (has_key ''required'' schema) (\<lambda>hasRequired.
       if hasProperties \<and> hasRequired
       then (case (schema, get_member schema ''properties'', get_member schema ''required'') of
               (JObj kvs, Some props, Some req) \<Rightarrow>
                 then_do (entries props) (\<lambda>es.
                 then_do (map_thrown readOnly_key es) (\<lambda>readOnlyProps.
                 then_do (remove_readOnly (List.map_filter id readOnlyProps) req) (\<lambda>req1.
                   Inr (JObj (AList.update ''required'' req1 kvs)))))
             | _ \<Rightarrow> Inr schema)
       else Inr schema))"

subsection \<open>OpenAPI v3 \<^verbatim>\<open>nullable\<close>\<close>

text \<open>
  The first part of \<^verbatim>\<open>recursiveTransformOpenAPIV3Definitions\<close>, on the members of the
  object it is given.
\<close>

definition nullable_rewrite :: "(string \<times> json) list \<Rightarrow> (string \<times> json) list" where
  "nullable_rewrite object =
     (case map_of object ''type'' of
        None \<Rightarrow> object
      | Some t \<Rightarrow>
          if truthy t \<and> map_of object ''nullable'' = Some (JBool True)
          then AList.delete ''nullable''
                 (case map_of object ''enum'' of
                    None \<Rightarrow> AList.update ''type'' (JArr [t, JStr ''null'']) object
                  | Some e \<Rightarrow>
                      if truthy e
                      then AList.delete ''enum'' (AList.delete ''type''
                             (AList.update ''oneOf''
                                (JArr [JObj [(''type'', JStr ''null'')],
                                       JObj [(''type'', t), (''enum'', e)]])
                                object))
                      else AList.update ''type'' (JArr [t, JStr ''null'']) object)
          else object)"

text \<open>\<^verbatim>\<open>typeof v === 'object' && v !== null\<close>: objects and arrays.\<close>

fun is_object :: "json \<Rightarrow> bool" where
  "is_object (JObj kvs) = True"
| "is_object (JArr xs) = True"
| "is_object j = False"

text \<open>
  The measure under which the recursion ends: the members of a rewritten object are the
  old members or the new array, and the new array weighs less than the three members it is
  built from, \<^verbatim>\<open>nullable: true\<close> among them.
\<close>

fun weight :: "json \<Rightarrow> nat" where
  "weight (JBool b) = (if b then 6 else 0)"
| "weight (JArr xs) = 1 + sum_list (map weight xs)"
| "weight (JObj kvs) = 4 + sum_list (map (\<lambda>(k, v). weight v) kvs)"
| "weight j = 0"

lemma weight_member:
  "(k, v) \<in> set kvs \<Longrightarrow> weight v \<le> sum_list (map (\<lambda>(k, v). weight v) kvs)"
  by (induction kvs) auto

lemma weight_lookup:
  "map_of kvs a = Some x \<Longrightarrow> weight x \<le> sum_list (map (\<lambda>(k, v). weight v) kvs)"
  by (induction kvs) (auto split: if_splits)

lemma weight_lookup2:
  "map_of kvs a = Some x \<Longrightarrow> map_of kvs b = Some y \<Longrightarrow> a \<noteq> b
     \<Longrightarrow> weight x + weight y \<le> sum_list (map (\<lambda>(k, v). weight v) kvs)"
proof (induction kvs)
  case Nil
  then show ?case by simp
next
  case (Cons p kvs)
  obtain k v where p: "p = (k, v)" by (cases p)
  show ?case
  proof (cases "k = a")
    case True
    with Cons.prems p have "x = v" "map_of kvs b = Some y" by auto
    with weight_lookup [of kvs b y] p show ?thesis by simp
  next
    case False
    show ?thesis
    proof (cases "k = b")
      case True
      with Cons.prems p False have "y = v" "map_of kvs a = Some x" by auto
      with weight_lookup [of kvs a x] p show ?thesis by simp
    next
      case kb: False
      with Cons.prems p False have "map_of kvs a = Some x" "map_of kvs b = Some y" by auto
      with Cons.IH Cons.prems(3) p show ?thesis by simp
    qed
  qed
qed

lemma weight_lookup3:
  "map_of kvs a = Some x \<Longrightarrow> map_of kvs b = Some y \<Longrightarrow> map_of kvs c = Some z
     \<Longrightarrow> a \<noteq> b \<Longrightarrow> a \<noteq> c \<Longrightarrow> b \<noteq> c
     \<Longrightarrow> weight x + weight y + weight z \<le> sum_list (map (\<lambda>(k, v). weight v) kvs)"
proof (induction kvs)
  case Nil
  then show ?case by simp
next
  case (Cons p kvs)
  obtain k v where p: "p = (k, v)" by (cases p)
  consider "k = a" | "k = b" | "k = c" | "k \<noteq> a" "k \<noteq> b" "k \<noteq> c" by blast
  then show ?case
  proof cases
    case 1
    with Cons.prems p have "x = v" "map_of kvs b = Some y" "map_of kvs c = Some z" by auto
    with weight_lookup2 [of kvs b y c z] Cons.prems p show ?thesis by simp
  next
    case 2
    with Cons.prems p have "y = v" "map_of kvs a = Some x" "map_of kvs c = Some z" by auto
    with weight_lookup2 [of kvs a x c z] Cons.prems p show ?thesis by simp
  next
    case 3
    with Cons.prems p have "z = v" "map_of kvs a = Some x" "map_of kvs b = Some y" by auto
    with weight_lookup2 [of kvs a x b y] Cons.prems p show ?thesis by simp
  next
    case 4
    with Cons.prems p have "map_of kvs a = Some x" "map_of kvs b = Some y" "map_of kvs c = Some z"
      by auto
    with Cons.IH Cons.prems p show ?thesis by simp
  qed
qed

lemma set_alist_delete: "p \<in> set (AList.delete k kvs) \<Longrightarrow> p \<in> set kvs"
  by (auto simp: AList.delete_eq)

lemma set_alist_update: "set (AList.update k v kvs) \<subseteq> insert (k, v) (set kvs)"
  by (induction kvs) auto

lemma nullable_rewrite_weight:
  assumes "(k, v) \<in> set (nullable_rewrite object)"
  shows "weight v < weight (JObj object)"
proof (cases "(k, v) \<in> set object")
  case True
  from weight_member [OF this] show ?thesis by simp
next
  case False
  with assms obtain t where t: "map_of object ''type'' = Some t"
    and cond: "truthy t" "map_of object ''nullable'' = Some (JBool True)"
    by (auto simp: nullable_rewrite_def split: option.splits if_splits)
  let ?plain = "AList.update ''type'' (JArr [t, JStr ''null'']) object"
  have plain: "weight v < weight (JObj object)" if "(k, v) \<in> set ?plain"
  proof -
    from that set_alist_update [of "''type''" _ object] False
    have "v = JArr [t, JStr ''null'']" by auto
    with weight_lookup [OF t] show ?thesis by simp
  qed
  show ?thesis
  proof (cases "map_of object ''enum''")
    case None
    with assms t cond have "(k, v) \<in> set (AList.delete ''nullable'' ?plain)"
      by (simp add: nullable_rewrite_def)
    then have "(k, v) \<in> set ?plain" by (rule set_alist_delete)
    then show ?thesis by (rule plain)
  next
    case (Some e)
    show ?thesis
    proof (cases "truthy e")
      case False
      with assms t cond Some have "(k, v) \<in> set (AList.delete ''nullable'' ?plain)"
        by (simp add: nullable_rewrite_def)
      then have "(k, v) \<in> set ?plain" by (rule set_alist_delete)
      then show ?thesis by (rule plain)
    next
      case True
      let ?new = "JArr [JObj [(''type'', JStr ''null'')], JObj [(''type'', t), (''enum'', e)]]"
      from assms t cond Some True
      have "(k, v) \<in> set (AList.delete ''nullable'' (AList.delete ''enum''
              (AList.delete ''type'' (AList.update ''oneOf'' ?new object))))"
        by (simp add: nullable_rewrite_def)
      then have "(k, v) \<in> set (AList.update ''oneOf'' ?new object)"
        by (blast dest: set_alist_delete)
      with set_alist_update [of "''oneOf''" ?new object] \<open>(k, v) \<notin> set object\<close>
      have v: "v = ?new" by auto
      from weight_lookup3 [OF t Some cond(2)]
      have "weight t + weight e + 6 \<le> sum_list (map (\<lambda>(k, v). weight v) object)" by simp
      with v show ?thesis by simp
    qed
  qed
qed

text \<open>
  \<^verbatim>\<open>recursiveTransformOpenAPIV3Definitions\<close> changes the object it is given in place; the
  model returns the object in its new state. After the rewrite of the object's own members
  the function is called on every member that is an object or an array (the second branch of
  the source's loop, for arrays, is never reached: an array is an object). An array has no
  \<^verbatim>\<open>type\<close> member, so for an array only the loop over its elements does anything.
\<close>

function recursiveTransformOpenAPIV3Definitions :: "json \<Rightarrow> json" where
  "recursiveTransformOpenAPIV3Definitions (JObj object) =
     JObj (map (\<lambda>(attr, v).
                  (attr, if is_object v then recursiveTransformOpenAPIV3Definitions v else v))
             (nullable_rewrite object))"
| "recursiveTransformOpenAPIV3Definitions (JArr xs) =
     JArr (map (\<lambda>v. if is_object v then recursiveTransformOpenAPIV3Definitions v else v) xs)"
| "recursiveTransformOpenAPIV3Definitions JNull = JNull"
| "recursiveTransformOpenAPIV3Definitions (JBool b) = JBool b"
| "recursiveTransformOpenAPIV3Definitions (JNum n) = JNum n"
| "recursiveTransformOpenAPIV3Definitions (JStr s) = JStr s"
  by pat_completeness auto
termination
proof (relation "measure weight")
  show "wf (measure weight)" by simp
next
  fix object :: "(string \<times> json) list" and x attr v
  assume "x \<in> set (nullable_rewrite object)" "(attr, v) = x"
  then have "(attr, v) \<in> set (nullable_rewrite object)" by simp
  from nullable_rewrite_weight [OF this]
  show "(v, JObj object) \<in> measure weight" by simp
next
  fix xs :: "json list" and v
  assume "v \<in> set xs"
  then have "weight v \<le> sum_list (map weight xs)"
    by (induction xs) auto
  then show "(v, JArr xs) \<in> measure weight" by simp
qed

text \<open>
  \<^verbatim>\<open>transformOpenAPIV3Definitions\<close>: the copy through \<^verbatim>\<open>JSON.parse(JSON.stringify(schema))\<close> is
  the value itself. \<^verbatim>\<open>null\<close> is an object for \<^verbatim>\<open>typeof\<close>, and reading its \<^verbatim>\<open>type\<close> throws.
\<close>

definition transformOpenAPIV3Definitions :: "json \<Rightarrow> thrown + json" where
  "transformOpenAPIV3Definitions schema =
     (if schema = JNull then Inl TypeError
      else if \<not> is_object schema then Inr schema
      else Inr (recursiveTransformOpenAPIV3Definitions schema))"

section \<open>Reference resolution\<close>

text \<open>
  \<^verbatim>\<open>resolveAndSanitizeRequestBodySchema\<close> calls itself on the copy of every schema a
  reference leads to, so on schemas that refer to themselves it does not return. The model
  counts the depth of the calls down from a bound: \<open>None\<close> is a call that has not returned
  within the bound, \<open>Some (Inl e)\<close> one that threw, \<open>Some (Inr x)\<close> one that returned \<open>x\<close>.
\<close>

definition then_fuel ::
  "(thrown + 'a) option \<Rightarrow> ('a \<Rightarrow> (thrown + 'b) option) \<Rightarrow> (thrown + 'b) option" where
  "then_fuel m f = (case m of None \<Rightarrow> None | Some (Inl e) \<Rightarrow> Some (Inl e) | Some (Inr x) \<Rightarrow> f x)"

fun map_fuel :: "('a \<Rightarrow> (thrown + 'b) option) \<Rightarrow> 'a list \<Rightarrow> (thrown + 'b list) option" where
  "map_fuel f [] = Some (Inr [])"
| "map_fuel f (x # xs) =
     then_fuel (f x) (\<lambda>y. then_fuel (map_fuel f xs) (\<lambda>ys. Some (Inr (y # ys))))"

text \<open>
  The function both changes the schema object it is given and returns a schema, and the two
  differ: for a \<^verbatim>\<open>$ref\<close> node only the local variable is assigned. A call therefore yields a
  pair: the state in which it leaves the object it was given, and the value it returns. The
  schema tree comes from \<^verbatim>\<open>JSON.parse\<close>, so no object in it is shared, and a change in place
  is a change of this one subtree.

  The engine's registry, \<^verbatim>\<open>v.getSchema\<close>, is a parameter: on the value of a \<^verbatim>\<open>$ref\<close> member it
  gives the registered schema, \<open>None\<close> when \<^verbatim>\<open>resolved && resolved.schema\<close> is falsy. The three
  definitions below take the recursive call as the argument \<open>self\<close>.
\<close>

text \<open>A registered schema is copied, sanitized and resolved; \<open>None\<close> when nothing is registered.\<close>

definition resolve_reference ::
  "(json \<Rightarrow> (thrown + json \<times> json) option) \<Rightarrow> (json \<Rightarrow> json option) \<Rightarrow> json
     \<Rightarrow> (thrown + json option) option" where
  "resolve_reference self getSchema reference =
     (case getSchema reference of
        None \<Rightarrow> Some (Inr None)
      | Some resolved \<Rightarrow>
          then_fuel (Some (sanitizeReadonlyPropertiesFromRequired resolved)) (\<lambda>copied.
          then_fuel (self copied) (\<lambda>(in_place, returned). Some (Inr (Some returned)))))"

text \<open>
  The loop over \<^verbatim>\<open>Object.keys(schema.properties)\<close>: \<^verbatim>\<open>prop\<close> is sanitized and resolved, and the
  results are assigned to the variable \<^verbatim>\<open>prop\<close> only. What \<^verbatim>\<open>schema.properties\<close> holds afterwards is
  every member in the state the two calls left it in.
\<close>

fun with_members :: "json \<Rightarrow> (string \<times> json) list \<Rightarrow> json" where
  "with_members (JObj kvs) members = JObj members"
| "with_members (JArr xs) members = JArr (map snd members)"
| "with_members j members = j"

definition resolve_properties ::
  "(json \<Rightarrow> (thrown + json \<times> json) option) \<Rightarrow> json \<Rightarrow> (thrown + json) option" where
  "resolve_properties self properties =
     then_fuel (Some (entries properties)) (\<lambda>members.
     then_fuel (map_fuel (\<lambda>(property, prop).
                  then_fuel (Some (sanitizeReadonlyPropertiesFromRequired prop)) (\<lambda>prop1.
                  then_fuel (self prop1) (\<lambda>(in_place, returned).
                    Some (Inr (property, in_place))))) members) (\<lambda>members1.
       Some (Inr (with_members properties members1))))"

text \<open>
  \<^verbatim>\<open>allOf.map(val => ...)\<close>, and the same for \<^verbatim>\<open>oneOf\<close> and \<^verbatim>\<open>anyOf\<close>: the new array holds what
  the calls return. Only an array has \<^verbatim>\<open>map\<close>.
\<close>

definition resolve_branches ::
  "(json \<Rightarrow> (thrown + json \<times> json) option) \<Rightarrow> json \<Rightarrow> (thrown + json) option" where
  "resolve_branches self branches =
     (case branches of
        JArr vals \<Rightarrow>
          then_fuel (map_fuel (\<lambda>val.
                       then_fuel (Some (sanitizeReadonlyPropertiesFromRequired val)) (\<lambda>val1.
                       then_fuel (self val1) (\<lambda>(in_place, returned). Some (Inr returned)))) vals)
            (\<lambda>vals1. Some (Inr (JArr vals1)))
      | _ \<Rightarrow> Some (Inl TypeError))"

fun resolveAndSanitizeRequestBodySchema ::
  "nat \<Rightarrow> (json \<Rightarrow> json option) \<Rightarrow> json \<Rightarrow> (thrown + json \<times> json) option" where
  "resolveAndSanitizeRequestBodySchema 0 getSchema requestBodySchema = None"
| "resolveAndSanitizeRequestBodySchema (Suc fuel) getSchema requestBodySchema =
     (case requestBodySchema of
        JObj kvs \<Rightarrow>
          (case map_of kvs ''properties'' of
             Some properties \<Rightarrow>
               then_fuel (resolve_properties
                            (resolveAndSanitizeRequestBodySchema fuel getSchema) properties)
                 (\<lambda>properties1.
                    let schema = JObj (AList.update ''properties'' properties1 kvs)
                    in Some (Inr (schema, schema)))
           | None \<Rightarrow>
          (case map_of kvs ''$ref'' of
             Some reference \<Rightarrow>
               then_fuel (resolve_reference
                            (resolveAndSanitizeRequestBodySchema fuel getSchema) getSchema reference)
                 (\<lambda>copied. Some (Inr (requestBodySchema,
                                       case copied of None \<Rightarrow> requestBodySchema | Some c \<Rightarrow> c)))
           | None \<Rightarrow>
          (case map_of kvs ''items'' of
             Some items \<Rightarrow>
               then_fuel (Some (has_key ''$ref'' items)) (\<lambda>hasRef.
                 case (hasRef, get_member items ''$ref'') of
                   (True, Some reference) \<Rightarrow>
                     then_fuel (resolve_reference
                                  (resolveAndSanitizeRequestBodySchema fuel getSchema)
                                  getSchema reference)
                       (\<lambda>copied.
                          case copied of
                            None \<Rightarrow> Some (Inr (requestBodySchema, requestBodySchema))
                          | Some c \<Rightarrow>
                              let schema = JObj (AList.update ''items'' c kvs)
                              in Some (Inr (schema, schema)))
                 | _ \<Rightarrow> Some (Inr (requestBodySchema, requestBodySchema)))
           | None \<Rightarrow>
          (case map_of kvs ''allOf'' of
             Some branches \<Rightarrow>
               then_fuel (resolve_branches
                            (resolveAndSanitizeRequestBodySchema fuel getSchema) branches)
                 (\<lambda>branches1.
                    let schema = JObj (AList.update ''allOf'' branches1 kvs)
                    in Some (Inr (schema, schema)))
           | None \<Rightarrow>
          (case map_of kvs ''oneOf'' of
             Some branches \<Rightarrow>
               then_fuel (resolve_branches
                            (resolveAndSanitizeRequestBodySchema fuel getSchema) branches)
                 (\<lambda>branches1.
                    let schema = JObj (AList.update ''oneOf'' branches1 kvs)
                    in Some (Inr (schema, schema)))
           | None \<Rightarrow>
          (case map_of kvs ''anyOf'' of
             Some branches \<Rightarrow>
               then_fuel (resolve_branches
                            (resolveAndSanitizeRequestBodySchema fuel getSchema) branches)
                 (\<lambda>branches1.
                    let schema = JObj (AList.update ''anyOf'' branches1 kvs)
                    in Some (Inr (schema, schema)))
           | None \<Rightarrow> Some (Inr (requestBodySchema, requestBodySchema))))))))
      | JArr xs \<Rightarrow> Some (Inr (requestBodySchema, requestBodySchema))
      | _ \<Rightarrow> Some (Inl TypeError))"

section \<open>The request validator\<close>

text \<open>
  A compiled predicate of the engine (\<^verbatim>\<open>Ajv.ValidateFunction\<close>) is a parameter: given the data
  (\<open>None\<close> is \<^verbatim>\<open>undefined\<close>) it answers \<open>None\<close> when the data is valid, and \<open>Some es\<close> when it is
  not, \<open>es\<close> being the violations it leaves in its \<^verbatim>\<open>errors\<close> member. The engine may also
  write defaults into the data; the model leaves that effect out, and the request is not part
  of what \<^verbatim>\<open>validate\<close> returns.
\<close>

type_synonym validateFunction = "json option \<Rightarrow> ajv_error list option"

text \<open>The fields of an \<^verbatim>\<open>OpenAPIRequestValidator\<close> that \<^verbatim>\<open>validate\<close> reads.\<close>

record validator =
  bodySchema :: "json option"
  errorMapper :: "ajv_error \<Rightarrow> validation_error"
  isBodyRequired :: bool
  requestBody :: "requestBodyObject option"
  requestBodyValidators :: "(string \<times> validateFunction) list"
  validateBody :: "validateFunction option"
  validateFormData :: "validateFunction option"
  validateHeaders :: "validateFunction option"
  validatePath :: "validateFunction option"
  validateQuery :: "validateFunction option"

text \<open>A request: each part may be missing (\<open>None\<close>). Header values are strings.\<close>

record request =
  body :: "json option"
  headers :: "(string \<times> string) list option"
  params :: "json option"
  query :: "json option"

text \<open>The local variables of \<^verbatim>\<open>validate\<close>.\<close>

record checks =
  errors :: "ajv_error list"
  schemaError :: "validation_error option"
  mediaTypeError :: "validation_error option"

text \<open>What \<^verbatim>\<open>validate\<close> returns when it returns an object; \<open>result_errors\<close> is its \<^verbatim>\<open>errors\<close> member.\<close>

record validationResult =
  status :: nat
  result_errors :: "validation_error list"

definition missing_body_error :: "json \<Rightarrow> validation_error" where
  "missing_body_error schema =
     \<lparr> ve_path = None, ve_errorCode = None,
       ve_message = ''request.body was not present in the request.  Is a body-parser being used?'',
       ve_location = Some ''body'', ve_schema = Some schema \<rparr>"

definition unsupported_media_type_error :: "string \<Rightarrow> validation_error" where
  "unsupported_media_type_error contentType =
     \<lparr> ve_path = None, ve_errorCode = None,
       ve_message = ''Unsupported Content-Type '' @ contentType,
       ve_location = None, ve_schema = None \<rparr>"

definition media_type_not_specified :: ajv_error where
  "media_type_not_specified =
     \<lparr> keyword = ''required'', dataPath = ''.body'', missingProperty = None, ref = None,
       message = ''media type is not specified'', location = Some ''body'' \<rparr>"

text \<open>\<^verbatim>\<open>if (!f(data)) { errors.push.apply(errors, withAddedLocation(loc, f.errors)) }\<close>\<close>

definition run_predicate :: "string \<Rightarrow> validateFunction \<Rightarrow> json option \<Rightarrow> checks \<Rightarrow> checks" where
  "run_predicate loc f data s =
     (case f data of
        None \<Rightarrow> s
      | Some es \<Rightarrow> s\<lparr>errors := errors s @ withAddedLocation loc es\<rparr>)"

text \<open>\<^verbatim>\<open>part || {}\<close>\<close>

definition or_empty :: "json option \<Rightarrow> json" where
  "or_empty part = (case part of None \<Rightarrow> JObj [] | Some j \<Rightarrow> if truthy j then j else JObj [])"

text \<open>\<^verbatim>\<open>request.body\<close> when it is truthy, as the two \<^verbatim>\<open>if (request.body)\<close> ask.\<close>

definition present_body :: "request \<Rightarrow> json option" where
  "present_body request =
     (case body request of None \<Rightarrow> None | Some b \<Rightarrow> if truthy b then Some b else None)"

text \<open>The body schema built from \<^verbatim>\<open>parameters\<close>.\<close>

definition check_bodySchema :: "validator \<Rightarrow> request \<Rightarrow> checks \<Rightarrow> thrown + checks" where
  "check_bodySchema this request s =
     (case bodySchema this of
        None \<Rightarrow> Inr s
      | Some schema \<Rightarrow>
          (case present_body request of
             Some b \<Rightarrow>
               (case validateBody this of
                  None \<Rightarrow> Inl TypeError
                | Some f \<Rightarrow> Inr (run_predicate ''body'' f (Some (JObj [(''body'', b)])) s))
           | None \<Rightarrow>
               if isBodyRequired this
               then Inr (s\<lparr>schemaError := Some (missing_body_error schema)\<rparr>)
               else Inr s))"

text \<open>The branch \<^verbatim>\<open>if (!mediaTypeMatch)\<close>; a content type that is the empty string is falsy.\<close>

definition no_media_type_match :: "validator \<Rightarrow> string option \<Rightarrow> checks \<Rightarrow> checks" where
  "no_media_type_match this contentType s =
     (case (case contentType of None \<Rightarrow> None | Some h \<Rightarrow> if h \<noteq> [] then Some h else None) of
        Some h \<Rightarrow> s\<lparr>mediaTypeError := Some (unsupported_media_type_error h)\<rparr>
      | None \<Rightarrow>
          if isBodyRequired this
          then s\<lparr>errors := errors s @ [media_type_not_specified]\<rparr>
          else s)"

text \<open>The branch for a media type key that matched.\<close>

definition media_type_match ::
  "validator \<Rightarrow> requestBodyObject \<Rightarrow> request \<Rightarrow> string \<Rightarrow> checks \<Rightarrow> thrown + checks" where
  "media_type_match this spec request mediaTypeMatch s =
     (case map_of (content spec) mediaTypeMatch of
        None \<Rightarrow> Inl TypeError
      | Some schema \<Rightarrow>
          (case present_body request of
             Some b \<Rightarrow>
               (case map_of (requestBodyValidators this) mediaTypeMatch of
                  None \<Rightarrow> Inl TypeError
                | Some f \<Rightarrow> Inr (run_predicate ''body'' f (Some (JObj [(''body'', b)])) s))
           | None \<Rightarrow>
               if isBodyRequired this
               then Inr (s\<lparr>schemaError := Some (missing_body_error schema)\<rparr>)
               else Inr s))"

text \<open>
  The OpenAPI v3 \<^verbatim>\<open>requestBody\<close>. \<^verbatim>\<open>request.headers\<close> is read without a default here, and
  under the name \<^verbatim>\<open>content-type\<close> as it is written. A media type key that is the empty string
  counts as no match.
\<close>

definition check_requestBody ::
  "contentTypeParser \<Rightarrow> validator \<Rightarrow> request \<Rightarrow> checks \<Rightarrow> thrown + checks" where
  "check_requestBody parse this request s =
     (case requestBody this of
        None \<Rightarrow> Inr s
      | Some spec \<Rightarrow>
          (case headers request of
             None \<Rightarrow> Inl TypeError
           | Some hs \<Rightarrow>
               (let contentType = map_of hs ''content-type''
                in then_do (getSchemaForMediaType parse contentType spec) (\<lambda>mediaTypeMatch.
                     case mediaTypeMatch of
                       None \<Rightarrow> Inr (no_media_type_match this contentType s)
                     | Some key \<Rightarrow>
                         if key = [] then Inr (no_media_type_match this contentType s)
                         else media_type_match this spec request key s))))"

definition check_formData :: "validator \<Rightarrow> request \<Rightarrow> checks \<Rightarrow> checks" where
  "check_formData this request s =
     (case validateFormData this of
        None \<Rightarrow> s
      | Some f \<Rightarrow> if schemaError s = None then run_predicate ''formData'' f (body request) s else s)"

definition check_path :: "validator \<Rightarrow> request \<Rightarrow> checks \<Rightarrow> checks" where
  "check_path this request s =
     (case validatePath this of
        None \<Rightarrow> s
      | Some f \<Rightarrow> run_predicate ''path'' f (Some (or_empty (params request))) s)"

text \<open>The header object handed to the predicate: the request's headers under lowercase names.\<close>

definition headers_object :: "(string \<times> string) list option \<Rightarrow> json" where
  "headers_object hs =
     JObj (map (\<lambda>(name, v). (name, JStr v))
             (lowercaseRequestHeaders (case hs of None \<Rightarrow> [] | Some h \<Rightarrow> h)))"

definition check_headers :: "validator \<Rightarrow> request \<Rightarrow> checks \<Rightarrow> checks" where
  "check_headers this request s =
     (case validateHeaders this of
        None \<Rightarrow> s
      | Some f \<Rightarrow> run_predicate ''headers'' f (Some (headers_object (headers request))) s)"

definition check_query :: "validator \<Rightarrow> request \<Rightarrow> checks \<Rightarrow> checks" where
  "check_query this request s =
     (case validateQuery this of
        None \<Rightarrow> s
      | Some f \<Rightarrow> run_predicate ''query'' f (Some (or_empty (query request))) s)"

text \<open>The state of the local variables when the six steps are done.\<close>

definition run_checks :: "contentTypeParser \<Rightarrow> validator \<Rightarrow> request \<Rightarrow> thrown + checks" where
  "run_checks parse this request =
     then_do (check_bodySchema this request
                \<lparr> errors = [], schemaError = None, mediaTypeError = None \<rparr>) (\<lambda>s1.
     then_do (check_requestBody parse this request s1) (\<lambda>s2.
       Inr (check_query this request
             (check_headers this request
               (check_path this request
                 (check_formData this request s2))))))"

text \<open>The end of \<^verbatim>\<open>validate\<close>: the value of \<^verbatim>\<open>err\<close>, \<open>None\<close> when it was never assigned.\<close>

definition classify :: "validator \<Rightarrow> checks \<Rightarrow> validationResult option" where
  "classify this s =
     (if errors s \<noteq> []
      then Some \<lparr> status = 400, result_errors = map (errorMapper this) (errors s) \<rparr>
      else (case schemaError s of
              Some e \<Rightarrow> Some \<lparr> status = 400, result_errors = [e] \<rparr>
            | None \<Rightarrow>
                (case mediaTypeError s of
                   Some e \<Rightarrow> Some \<lparr> status = 415, result_errors = [e] \<rparr>
                 | None \<Rightarrow> None)))"

definition validate ::
  "contentTypeParser \<Rightarrow> validator \<Rightarrow> request \<Rightarrow> thrown + validationResult option" where
  "validate parse this request =
     then_do (run_checks parse this request) (\<lambda>s. Inr (classify this s))"

section \<open>Construction\<close>

text \<open>
  What lies outside the repository is a parameter of the constructor: the converter of
  parameters into the schemas of the request parts, and the engine. The state of an \<^verbatim>\<open>Ajv\<close>
  instance is its formats and the schemas registered with it. \<open>ajv_addSchema\<close> is
  \<^verbatim>\<open>v.addSchema(schema, key)\<close>: it gives the instance with the schema registered, or throws (the
  engine refuses a key or id it already has, for one). \<open>ajv_compile\<close> may throw as well, and
  \<open>ajv_getSchema\<close> is the registry that reference resolution asks.
\<close>

record schemaGroups =
  sg_body :: "json option"
  sg_formData :: "json option"
  sg_headers :: "headersSchemaObject option"
  sg_path :: "json option"
  sg_query :: "json option"

record ajv =
  ajv_formats :: "string list"
  ajv_schemas :: "(json \<times> json) list"

record engine =
  convertParametersToJSONSchema :: "(string \<times> json) list list \<Rightarrow> schemaGroups"
  ajv_addSchema :: "ajv \<Rightarrow> json \<Rightarrow> json \<Rightarrow> thrown + ajv"
  ajv_compile :: "ajv \<Rightarrow> json \<Rightarrow> thrown + validateFunction"
  ajv_getSchema :: "ajv \<Rightarrow> json \<Rightarrow> json option"

text \<open>
  \<^verbatim>\<open>args.parameters\<close>: missing, an array of parameter objects, or something that is no array.
\<close>

datatype parameters_arg =
    NoParameters
  | ParameterArray "(string \<times> json) list list"
  | NotAnArray

text \<open>
  The arguments. An entry of \<open>arg_customFormats\<close> says whether the format is a function;
  \<open>arg_schemas\<close> is an array of schemas or anything else.
\<close>

record args =
  arg_customFormats :: "(string \<times> bool) list option"
  arg_externalSchemas :: "(string \<times> json) list option"
  arg_parameters :: parameters_arg
  arg_requestBody :: "requestBodyObject option"
  arg_schemas :: "json option"
  arg_componentSchemas :: "(string \<times> json) list option"
  arg_errorTransformer :: "(validation_error \<Rightarrow> ajv_error \<Rightarrow> validation_error) option"

definition byRequiredBodyParameters :: "(string \<times> json) list \<Rightarrow> bool" where
  "byRequiredBodyParameters param =
     ((map_of param ''in'' = Some (JStr ''body'') \<or> map_of param ''in'' = Some (JStr ''formData''))
      \<and> truthy_opt (map_of param ''required''))"

text \<open>A value when it is truthy: what \<^verbatim>\<open>x && f(x)\<close> and \<^verbatim>\<open>if (x)\<close> go on with.\<close>

definition when_truthy :: "json option \<Rightarrow> json option" where
  "when_truthy v = (case v of None \<Rightarrow> None | Some j \<Rightarrow> if truthy j then Some j else None)"

text \<open>\<^verbatim>\<open>LOCAL_DEFINITION_REGEX.exec(id)\<close>, \<^verbatim>\<open>/^#\/([^\/]+)\/([^\/]+)$/\<close>, on a string.\<close>

definition local_definition :: "string \<Rightarrow> (string \<times> string) option" where
  "local_definition ident =
     (case split_slash ident of
        [h, a, b] \<Rightarrow> if h = ''#'' \<and> a \<noteq> [] \<and> b \<noteq> [] then Some (a, b) else None
      | _ \<Rightarrow> None)"

text \<open>
  \<^verbatim>\<open>definitions = bodyValidationSchema[a]\<close>, created empty when it is not there, and
  \<^verbatim>\<open>definitions[b] = schema\<close>.
\<close>

definition add_local_definition ::
  "(string \<times> json) list \<Rightarrow> string \<Rightarrow> string \<Rightarrow> json \<Rightarrow> (string \<times> json) list" where
  "add_local_definition bodyValidationSchema a b schema =
     (let definitions = (case map_of bodyValidationSchema a of Some (JObj d) \<Rightarrow> d | _ \<Rightarrow> [])
      in AList.update a (JObj (AList.update b schema definitions)) bodyValidationSchema)"

text \<open>
  The \<^verbatim>\<open>forEach\<close> over \<^verbatim>\<open>args.schemas\<close> when it is an array. A schema without a truthy \<^verbatim>\<open>id\<close> is
  ignored; an \<^verbatim>\<open>id\<close> is matched against the pattern when it is a string.
\<close>

fun add_schemas ::
  "engine \<Rightarrow> json list \<Rightarrow> (string \<times> json) list option \<times> ajv
     \<Rightarrow> thrown + (string \<times> json) list option \<times> ajv"
  where
  "add_schemas e [] st = Inr st"
| "add_schemas e (schema # rest) (bodyValidationSchema, v) =
     (if schema = JNull then Inl TypeError
      else (case when_truthy (get_member schema ''id'') of
              None \<Rightarrow> add_schemas e rest (bodyValidationSchema, v)
            | Some ident \<Rightarrow>
                then_do (ajv_addSchema e v schema ident) (\<lambda>v1.
                  add_schemas e rest
                    (case (ident, bodyValidationSchema) of
                       (JStr i, Some bvs) \<Rightarrow>
                         (case local_definition i of
                            Some (a, b) \<Rightarrow> Some (add_local_definition bvs a b schema)
                          | None \<Rightarrow> bodyValidationSchema)
                     | _ \<Rightarrow> bodyValidationSchema,
                     v1))))"

text \<open>
  The \<^verbatim>\<open>forEach\<close> over the keys of \<^verbatim>\<open>args.componentSchemas\<close> and of \<^verbatim>\<open>args.externalSchemas\<close>: each
  schema is added under its key, behind the given prefix.
\<close>

fun add_keyed_schemas :: "engine \<Rightarrow> string \<Rightarrow> (string \<times> json) list \<Rightarrow> ajv \<Rightarrow> thrown + ajv" where
  "add_keyed_schemas e pre [] v = Inr v"
| "add_keyed_schemas e pre ((ident, schema) # rest) v =
     then_do (ajv_addSchema e v schema (JStr (pre @ ident))) (add_keyed_schemas e pre rest)"

text \<open>The schema compiled for one media type of the \<^verbatim>\<open>requestBody\<close>.\<close>

definition requestBody_validation_schema :: "json option \<Rightarrow> json \<Rightarrow> json" where
  "requestBody_validation_schema schemas resolvedSchema =
     JObj [(''properties'', JObj [(''body'', resolvedSchema)]),
           (''definitions'', (case when_truthy schemas of None \<Rightarrow> JObj [] | Some j \<Rightarrow> j)),
           (''components'', JObj (case schemas of None \<Rightarrow> [] | Some j \<Rightarrow> [(''schemas'', j)]))]"

text \<open>\<^verbatim>\<open>schema && v.compile(transformOpenAPIV3Definitions(schema))\<close>\<close>

definition compile_part :: "engine \<Rightarrow> ajv \<Rightarrow> json option \<Rightarrow> thrown + validateFunction option" where
  "compile_part e v schema =
     (case when_truthy schema of
        None \<Rightarrow> Inr None
      | Some j \<Rightarrow>
          then_do (transformOpenAPIV3Definitions j) (\<lambda>transformed.
          then_do (ajv_compile e v transformed) (\<lambda>f. Inr (Some f))))"

text \<open>The body of the loop over the media type keys of \<^verbatim>\<open>args.requestBody.content\<close>.\<close>

definition compile_media_type ::
  "engine \<Rightarrow> nat \<Rightarrow> ajv \<Rightarrow> json option \<Rightarrow> string \<times> json
     \<Rightarrow> (thrown + string \<times> validateFunction) option" where
  "compile_media_type e fuel v schemas entry =
     (case entry of (mediaTypeKey, bodyContentSchema) \<Rightarrow>
        then_fuel (resolveAndSanitizeRequestBodySchema fuel (ajv_getSchema e v) bodyContentSchema)
          (\<lambda>(in_place, resolvedSchema).
        then_fuel (Some (transformOpenAPIV3Definitions
                           (requestBody_validation_schema schemas resolvedSchema)))
          (\<lambda>transformed.
        then_fuel (Some (ajv_compile e v transformed)) (\<lambda>f. Some (Inr (mediaTypeKey, f))))))"

text \<open>
  The constructor, with the bound on the depth of reference resolution. It throws the two
  configuration errors of the source in the source's order; the check of \<^verbatim>\<open>args\<close> itself has
  no counterpart, the arguments being there.
\<close>

definition OpenAPIRequestValidator :: "engine \<Rightarrow> nat \<Rightarrow> args \<Rightarrow> (thrown + validator) option" where
  "OpenAPIRequestValidator e fuel args =
     (if arg_parameters args = NotAnArray
      then Some (Inl (ConfigurationError ''args.parameters must be an Array''))
      else
       (let schemas = (case arg_parameters args of
                         ParameterArray ps \<Rightarrow> Some (convertParametersToJSONSchema e ps)
                       | _ \<Rightarrow> None);
            bodySchema = when_truthy (Option.bind schemas sg_body);
            headersSchema = lowercasedHeaders (Option.bind schemas sg_headers);
            formDataSchema = Option.bind schemas sg_formData;
            pathSchema = Option.bind schemas sg_path;
            querySchema = Option.bind schemas sg_query;
            isBodyRequired0 = (case arg_parameters args of
                                 ParameterArray ps \<Rightarrow> filter byRequiredBodyParameters ps \<noteq> []
                               | _ \<Rightarrow> False);
            isBodyRequired1 = (case arg_requestBody args of
                                 Some spec \<Rightarrow> required spec = Some True
                               | None \<Rightarrow> isBodyRequired0);
            formats = (case arg_customFormats args of None \<Rightarrow> [] | Some fs \<Rightarrow> fs)
        in if \<exists>format \<in> set formats. \<not> snd format
           then Some (Inl (ConfigurationError ''args.customFormats properties must be functions''))
           else
            (let v0 = \<lparr> ajv_formats = map fst formats, ajv_schemas = [] \<rparr>;
                 bodyValidationSchema0 =
                   map_option (\<lambda>b. [(''properties'', JObj [(''body'', b)])]) bodySchema;
                 registered =
                   (case arg_componentSchemas args of
                      Some cs \<Rightarrow>
                        then_do (add_keyed_schemas e ''#/components/schemas/'' cs v0)
                          (\<lambda>v. Inr (bodyValidationSchema0, v))
                    | None \<Rightarrow>
                        (case when_truthy (arg_schemas args) of
                           Some (JArr schemaList) \<Rightarrow>
                             add_schemas e schemaList (bodyValidationSchema0, v0)
                         | Some mapping \<Rightarrow>
                             Inr (map_option
                                    (\<lambda>bvs. AList.update ''components'' (JObj [(''schemas'', mapping)])
                                             (AList.update ''definitions'' mapping bvs))
                                    bodyValidationSchema0, v0)
                         | None \<Rightarrow> Inr (bodyValidationSchema0, v0)))
             in then_fuel (Some registered) (\<lambda>(bodyValidationSchema, v1).
                then_fuel (Some (case arg_externalSchemas args of
                                   None \<Rightarrow> Inr v1
                                 | Some xs \<Rightarrow> add_keyed_schemas e [] xs v1)) (\<lambda>v.
                  then_fuel
                       (case arg_requestBody args of
                          None \<Rightarrow> Some (Inr [])
                        | Some spec \<Rightarrow>
                            map_fuel (compile_media_type e fuel v (arg_schemas args)) (content spec))
                       (\<lambda>compiled.
                  then_fuel (Some (compile_part e v (map_option JObj bodyValidationSchema)))
                       (\<lambda>validateBody1.
                  then_fuel (Some (compile_part e v formDataSchema)) (\<lambda>validateFormData1.
                  then_fuel (Some (compile_part e v (map_option headersSchema_json headersSchema)))
                       (\<lambda>validateHeaders1.
                  then_fuel (Some (compile_part e v pathSchema)) (\<lambda>validatePath1.
                  then_fuel (Some (compile_part e v querySchema)) (\<lambda>validateQuery1.
                    Some (Inr
                      \<lparr> bodySchema = bodySchema,
                        errorMapper = (case arg_errorTransformer args of
                                         Some t \<Rightarrow> extendedErrorMapper t
                                       | None \<Rightarrow> toOpenapiValidationError),
                        isBodyRequired = isBodyRequired1,
                        requestBody = arg_requestBody args,
                        requestBodyValidators =
                          fold (\<lambda>(mediaTypeKey, f). AList.update mediaTypeKey f) compiled [],
                        validateBody = validateBody1,
                        validateFormData = validateFormData1,
                        validateHeaders = validateHeaders1,
                        validatePath = validatePath1,
                        validateQuery = validateQuery1 \<rparr>))))))))))))"

section \<open>Notions used in the statements\<close>

subsection \<open>Media type keys\<close>

text \<open>
  The score as the loop computes it, read off its two tests: a key scores 2 when its second
  segment is \<^verbatim>\<open>*\<close> and its first segment is the first segment of the parsed media type (whatever
  follows a further slash), 1 when it is \<^verbatim>\<open>*/*\<close>, and 0 otherwise. The selection below is the one of
  the specification with this score.
\<close>

definition loop_score :: "string \<Rightarrow> string \<Rightarrow> nat" where
  "loop_score contentType key =
     (if at_index (split_slash key) 1 = Some ''*''
         \<and> at_index (split_slash contentType) 0 = at_index (split_slash key) 0 then 2
      else if key = ''*/*'' then 1
      else 0)"

definition scored_mediaType :: "string \<Rightarrow> string list \<Rightarrow> string option" where
  "scored_mediaType contentType keys =
     (case find (\<lambda>key. sublist contentType key) keys of
        Some key \<Rightarrow> Some key
      | None \<Rightarrow>
          (let best = fold max (map (loop_score contentType) keys) 0
           in if best = 0 then None
              else find (\<lambda>key. loop_score contentType key = best) keys))"

text \<open>Putting the segments together again, with a slash between neighbours.\<close>

fun join_slash :: "string list \<Rightarrow> string" where
  "join_slash [] = []"
| "join_slash [seg] = seg"
| "join_slash (seg # segs) = seg @ CHR ''/'' # join_slash segs"

subsection \<open>Request parts\<close>

text \<open>The check of a request part passes: there is no predicate for it, or the predicate accepts.\<close>

definition passes :: "validateFunction option \<Rightarrow> json option \<Rightarrow> bool" where
  "passes f data = (case f of None \<Rightarrow> True | Some g \<Rightarrow> g data = None)"

text \<open>The local variables at the start of \<^verbatim>\<open>validate\<close>.\<close>

definition no_checks :: checks where
  "no_checks = \<lparr> errors = [], schemaError = None, mediaTypeError = None \<rparr>"

text \<open>The violations one request part contributes, tagged with its location.\<close>

definition part_errors :: "string \<Rightarrow> validateFunction option \<Rightarrow> json option \<Rightarrow> ajv_error list" where
  "part_errors loc f data =
     (case f of
        None \<Rightarrow> []
      | Some g \<Rightarrow> (case g data of None \<Rightarrow> [] | Some es \<Rightarrow> withAddedLocation loc es))"

subsection \<open>Nullable nodes and what the engine accepts\<close>

text \<open>
  A node the first part of the transformation rewrites: \<^verbatim>\<open>object.type && object.nullable === true\<close>.
\<close>

definition nullable_node :: "(string \<times> json) list \<Rightarrow> bool" where
  "nullable_node object \<longleftrightarrow>
     truthy_opt (map_of object ''type'') \<and> map_of object ''nullable'' = Some (JBool True)"

text \<open>No object anywhere in a value is such a node.\<close>

fun nullable_free :: "json \<Rightarrow> bool" where
  "nullable_free (JObj kvs) =
     (\<not> nullable_node kvs \<and> list_all (\<lambda>(k, v). nullable_free v) kvs)"
| "nullable_free (JArr xs) = list_all nullable_free xs"
| "nullable_free j = True"

text \<open>
  The validation engine is outside the repository. What follows is the meaning JSON Schema
  gives to the three keywords of the rewritten node, for the nodes the rewrite produces: a
  branch with \<^verbatim>\<open>type\<close> and \<^verbatim>\<open>enum\<close> accepts a value of that type that is one of the listed values,
  and \<^verbatim>\<open>oneOf\<close> accepts a value that exactly one branch accepts. Values are compared as the
  model represents them.
\<close>

fun has_type :: "string \<Rightarrow> json \<Rightarrow> bool" where
  "has_type t JNull = (t = ''null'')"
| "has_type t (JBool b) = (t = ''boolean'')"
| "has_type t (JNum n) = (t = ''integer'' \<or> t = ''number'')"
| "has_type t (JStr s) = (t = ''string'')"
| "has_type t (JArr xs) = (t = ''array'')"
| "has_type t (JObj kvs) = (t = ''object'')"

definition type_accepts :: "json option \<Rightarrow> json \<Rightarrow> bool" where
  "type_accepts t v =
     (case t of
        Some (JStr name) \<Rightarrow> has_type name v
      | Some (JArr names) \<Rightarrow> list_ex (\<lambda>n. case n of JStr name \<Rightarrow> has_type name v | _ \<Rightarrow> False) names
      | _ \<Rightarrow> True)"

definition enum_accepts :: "json option \<Rightarrow> json \<Rightarrow> bool" where
  "enum_accepts e v = (case e of Some (JArr vals) \<Rightarrow> v \<in> set vals | _ \<Rightarrow> True)"

definition branch_accepts :: "json \<Rightarrow> json \<Rightarrow> bool" where
  "branch_accepts branch v \<longleftrightarrow>
     type_accepts (get_member branch ''type'') v \<and> enum_accepts (get_member branch ''enum'') v"

definition oneOf_accepts :: "json option \<Rightarrow> json \<Rightarrow> bool" where
  "oneOf_accepts branches v =
     (case branches of
        Some (JArr bs) \<Rightarrow> length (filter (\<lambda>b. branch_accepts b v) bs) = 1
      | _ \<Rightarrow> True)"

subsection \<open>Example validators and requests\<close>

text \<open>An engine whose predicates accept everything, and arguments with one JSON media type.\<close>

definition accepting_engine :: engine where
  "accepting_engine =
     \<lparr> convertParametersToJSONSchema =
         (\<lambda>ps. \<lparr> sg_body = None, sg_formData = None, sg_headers = None,
                 sg_path = None, sg_query = None \<rparr>),
       ajv_addSchema =
         (\<lambda>v schema key. Inr (v\<lparr>ajv_schemas := ajv_schemas v @ [(key, schema)]\<rparr>)),
       ajv_compile = (\<lambda>v schema. Inr (\<lambda>data. None)),
       ajv_getSchema = (\<lambda>v reference. None) \<rparr>"

definition json_body_args :: "bool \<Rightarrow> args" where
  "json_body_args req =
     \<lparr> arg_customFormats = None,
       arg_externalSchemas = None,
       arg_parameters = NoParameters,
       arg_requestBody =
         Some \<lparr> required = Some req,
                content = [(''application/json'', JObj [(''type'', JStr ''object'')])] \<rparr>,
       arg_schemas = None,
       arg_componentSchemas = None,
       arg_errorTransformer = None \<rparr>"

definition json_body_validator :: "bool \<Rightarrow> validator" where
  "json_body_validator req =
     \<lparr> bodySchema = None,
       errorMapper = toOpenapiValidationError,
       isBodyRequired = req,
       requestBody = Some \<lparr> required = Some req,
                            content = [(''application/json'', JObj [(''type'', JStr ''object'')])] \<rparr>,
       requestBodyValidators = [(''application/json'', \<lambda>data. None)],
       validateBody = None,
       validateFormData = None,
       validateHeaders = None,
       validatePath = None,
       validateQuery = None \<rparr>"

text \<open>
  A validator with a required \<^verbatim>\<open>requestBody\<close> for \<^verbatim>\<open>application/json\<close> and a header predicate that
  rejects, and a request without a body: the missing-body error is recorded, and the result
  is the header violation.
\<close>

definition rejecting_headers_validator :: validator where
  "rejecting_headers_validator =
     \<lparr> bodySchema = None,
       errorMapper = toOpenapiValidationError,
       isBodyRequired = True,
       requestBody = Some \<lparr> required = Some True,
                            content = [(''application/json'', JObj [(''type'', JStr ''object'')])] \<rparr>,
       requestBodyValidators = [(''application/json'', \<lambda>data. None)],
       validateBody = None,
       validateFormData = None,
       validateHeaders =
         Some (\<lambda>data. Some [\<lparr> keyword = ''required'', dataPath = [],
                                missingProperty = Some ''x-api-key'', ref = None,
                                message = ''should have required property x-api-key'',
                                location = None \<rparr>]),
       validatePath = None,
       validateQuery = None \<rparr>"

definition json_request_without_body :: request where
  "json_request_without_body =
     \<lparr> body = None, headers = Some [(''content-type'', ''application/json'')],
       params = None, query = None \<rparr>"

section \<open>Error paths of body violations\<close>





section \<open>Media type selection: the loop against the specification\<close>

lemma indexOf_lower: "- 1 \<le> indexOf k c"
  by (induction k) (auto simp: Let_def)

lemma indexOf_sublist: "indexOf k c > - 1 \<longleftrightarrow> sublist c k"
proof (induction k)
  case Nil
  then show ?case by simp
next
  case (Cons x xs)
  from indexOf_lower [of xs c] Cons show ?case
    by (auto simp: Let_def sublist_Cons_right)
qed

lemma split_slash_wildcard: "split_slash ''*/*'' = [''*'', ''*'']"
  by simp

lemma mediaType_loop_step:
  assumes "\<not> sublist c k"
  shows "mediaType_loop c (k # ks) m p =
           mediaType_loop c ks (if loop_score c k > p then Some k else m) (max p (loop_score c k))"
proof -
  define W where "W \<longleftrightarrow> k = ''*/*''"
  define A where "A \<longleftrightarrow> at_index (split_slash k) 1 = Some ''*''"
  define B where "B \<longleftrightarrow> at_index (split_slash c) 0 = at_index (split_slash k) 0"
  from assms have no: "\<not> indexOf k c > - 1" by (simp add: indexOf_sublist)
  have WA: "W \<Longrightarrow> A"
    by (simp add: W_def A_def at_index_def)
  have score: "loop_score c k = (if A \<and> B then 2 else if W then 1 else 0)"
    by (simp add: loop_score_def W_def A_def B_def)
  have unfold: "mediaType_loop c (k # ks) m p =
      (if \<not> A then mediaType_loop c ks (if W \<and> 1 > p then Some k else m)
                    (if W \<and> 1 > p then 1 else p)
       else if B \<and> 2 > (if W \<and> 1 > p then 1 else p) then mediaType_loop c ks (Some k) 2
       else mediaType_loop c ks (if W \<and> 1 > p then Some k else m)
              (if W \<and> 1 > p then 1 else p))"
    using no unfolding W_def A_def B_def
    by (simp add: subTypeWildCardPoints_def wildcardMatchPoints_def Let_def
        del: split_slash.simps indexOf.simps)
  have cases: "p = 0 \<or> p = 1 \<or> 2 \<le> p" by arith
  show ?thesis
    unfolding unfold score using WA cases
    by (cases A; cases B; cases W) (auto simp: max_def)
qed

lemma fold_max_lower: "p \<le> fold max xs (p::nat)"
proof (induction xs arbitrary: p)
  case Nil
  then show ?case by simp
next
  case (Cons x xs)
  from Cons [of "max x p"] show ?case by simp
qed

lemma mediaType_loop_best:
  "mediaType_loop c ks m p =
     (case find (\<lambda>k. sublist c k) ks of
        Some k \<Rightarrow> Some k
      | None \<Rightarrow>
          (let best = fold max (map (loop_score c) ks) p
           in if best = p then m else find (\<lambda>k. loop_score c k = best) ks))"
proof (induction ks arbitrary: m p)
  case Nil
  then show ?case by simp
next
  case (Cons k ks)
  show ?case
  proof (cases "sublist c k")
    case True
    then have "indexOf k c > - 1" by (simp add: indexOf_sublist)
    with True show ?thesis by simp
  next
    case False
    let ?s = "loop_score c k"
    let ?b = "fold max (map (loop_score c) ks) (max ?s p)"
    have lower: "max ?s p \<le> ?b" by (rule fold_max_lower)
    have step: "mediaType_loop c (k # ks) m p =
        mediaType_loop c ks (if ?s > p then Some k else m) (max p ?s)"
      using False by (rule mediaType_loop_step)
    show ?thesis
    proof (cases "find (\<lambda>k. sublist c k) ks")
      case (Some k')
      with False step Cons.IH [of "if ?s > p then Some k else m" "max p ?s"]
      show ?thesis by simp
    next
      case None
      with step Cons.IH [of "if ?s > p then Some k else m" "max p ?s"]
      have loop: "mediaType_loop c (k # ks) m p =
          (if ?b = max p ?s then (if ?s > p then Some k else m)
           else find (\<lambda>k. loop_score c k = ?b) ks)"
        by (simp add: Let_def max.commute)
      have rhs: "(if ?b = max p ?s then (if ?s > p then Some k else m)
           else find (\<lambda>k. loop_score c k = ?b) ks) =
          (if ?b = p then m else find (\<lambda>k. loop_score c k = ?b) (k # ks))"
        using lower by (auto simp: max_def split: if_splits)
      from None False loop rhs show ?thesis by (simp add: Let_def)
    qed
  qed
qed

lemma split_slash_nonempty: "split_slash s \<noteq> []"
  by (induction s) (auto split: list.splits)

lemma join_split_slash: "join_slash (split_slash s) = s"
proof (induction s)
  case Nil
  then show ?case by simp
next
  case (Cons c cs)
  obtain seg segs where segs: "split_slash cs = seg # segs"
    using split_slash_nonempty [of cs] by (cases "split_slash cs") auto
  with Cons show ?case
    by (cases segs) auto
qed

lemma hd_split_slash: "CHR ''/'' \<notin> set (hd (split_slash s))"
  by (induction s) (auto split: list.splits)

lemma split_slash_append:
  "CHR ''/'' \<notin> set a \<Longrightarrow> split_slash (a @ CHR ''/'' # b) = a # split_slash b"
  by (induction a) auto

lemma loop_score_spec:
  assumes "length (split_slash k) \<le> 2"
  shows "loop_score c k = spec_score c k"
proof -
  let ?t = "hd (split_slash c)"
  have first: "at_index (split_slash c) 0 = Some ?t"
    using split_slash_nonempty [of c] by (cases "split_slash c") (auto simp: at_index_def)
  have star: "split_slash ''*'' = [''*'']" by simp
  have "at_index (split_slash k) 1 = Some ''*''
          \<and> at_index (split_slash c) 0 = at_index (split_slash k) 0
        \<longleftrightarrow> k = ?t @ ''/*''"
  proof
    assume "k = ?t @ ''/*''"
    then have "k = ?t @ CHR ''/'' # ''*''" by simp
    with split_slash_append [OF hd_split_slash, of c "''*''"] star
    have "split_slash k = [?t, ''*'']" by simp
    with first show "at_index (split_slash k) 1 = Some ''*''
          \<and> at_index (split_slash c) 0 = at_index (split_slash k) 0"
      by (simp add: at_index_def)
  next
    assume cond: "at_index (split_slash k) 1 = Some ''*''
          \<and> at_index (split_slash c) 0 = at_index (split_slash k) 0"
    then have "length (split_slash k) = 2"
      using assms by (auto simp: at_index_def split: if_splits)
    then obtain x y where xy: "split_slash k = [x, y]"
      by (auto simp: length_Suc_conv numeral_2_eq_2)
    with cond first have "y = ''*''" "x = ?t"
      by (auto simp: at_index_def)
    with xy join_split_slash [of k] show "k = ?t @ ''/*''" by simp
  qed
  then show ?thesis
    by (simp add: loop_score_def spec_score_def)
qed

lemma mediaType_loop_spec:
  assumes "\<forall>k \<in> set keys. length (split_slash k) \<le> 2"
  shows "mediaType_loop c keys None 0 = spec_mediaType c keys"
proof -
  from assms have scores: "map (loop_score c) keys = map (spec_score c) keys"
    by (simp add: loop_score_spec)
  from assms
  have finds: "find (\<lambda>k. loop_score c k = b) keys = find (\<lambda>k. spec_score c k = b) keys" for b
    by (induction keys) (auto simp: loop_score_spec)
  show ?thesis
    unfolding mediaType_loop_best spec_mediaType_def scores finds ..
qed

lemma mediaType_loop_scored: "mediaType_loop c keys None 0 = scored_mediaType c keys"
  by (simp add: mediaType_loop_best scored_mediaType_def)

lemma loop_score_subtype_wildcard: "loop_score c (hd (split_slash c) @ ''/*'') = 2"
proof -
  let ?t = "hd (split_slash c)"
  have "?t @ ''/*'' = ?t @ CHR ''/'' # ''*''" by simp
  with split_slash_append [OF hd_split_slash, of c "''*''"]
  have split: "split_slash (?t @ ''/*'') = [?t, ''*'']" by simp
  then have "length (split_slash (?t @ ''/*'')) \<le> 2" by simp
  from loop_score_spec [OF this] show ?thesis by (simp add: spec_score_def)
qed

lemma loop_score_cases: "loop_score c k = 2 \<or> loop_score c k = 1 \<or> loop_score c k = 0"
  by (simp add: loop_score_def)

lemma loop_score_wildcard: "loop_score c ''*/*'' = 2 \<or> loop_score c ''*/*'' = 1"
  by (simp add: loop_score_def)

lemma scored_mediaType_wildcard:
  assumes "\<forall>k \<in> set keys. \<not> sublist c k \<and> loop_score c k \<noteq> 2"
    and "''*/*'' \<in> set keys"
  shows "scored_mediaType c keys = Some ''*/*''"
proof -
  have one: "loop_score c k = 1 \<longleftrightarrow> k = ''*/*''" if "loop_score c k \<noteq> 2" for k
    using that by (auto simp: loop_score_def split: if_splits)
  have le: "fold max (map (loop_score c) ks) p \<le> 1"
    if "\<forall>k \<in> set ks. loop_score c k \<noteq> 2" "p \<le> 1" for ks p
    using that
  proof (induction ks arbitrary: p)
    case Nil
    then show ?case by simp
  next
    case (Cons k ks)
    with loop_score_cases [of c k] have "loop_score c k \<le> 1" by auto
    with Cons show ?case by simp
  qed
  have ge: "fold max (map (loop_score c) ks) p \<ge> 1"
    if "''*/*'' \<in> set ks" "\<forall>k \<in> set ks. loop_score c k \<noteq> 2" for ks p
    using that
  proof (induction ks arbitrary: p)
    case Nil
    then show ?case by simp
  next
    case (Cons k ks)
    show ?case
    proof (cases "k = ''*/*''")
      case True
      with Cons.prems one [of k] have "loop_score c k = 1" by simp
      with fold_max_lower [of "max (loop_score c k) p" "map (loop_score c) ks"]
      show ?thesis by simp
    next
      case False
      with Cons show ?thesis by simp
    qed
  qed
  from assms le [of keys 0] ge [of keys 0]
  have best: "fold max (map (loop_score c) keys) 0 = 1" by simp
  have none: "find (\<lambda>k. sublist c k) keys = None"
    using assms(1) by (simp add: find_None_iff)
  have first: "find (\<lambda>k. loop_score c k = 1) ks = Some ''*/*''"
    if "''*/*'' \<in> set ks" "\<forall>k \<in> set ks. loop_score c k \<noteq> 2" for ks
    using that
  proof (induction ks)
    case Nil
    then show ?case by simp
  next
    case (Cons k ks)
    with one [of k] show ?case by auto
  qed
  from none best first [of keys] assms show ?thesis
    by (simp add: scored_mediaType_def Let_def)
qed

text \<open>
  C2, as stated, at the keys \<^verbatim>\<open>*/*\<close> and \<^verbatim>\<open>text/*/x\<close> and the content type \<^verbatim>\<open>text/plain\<close>. Neither key
  contains \<^verbatim>\<open>text/plain\<close>, and \<^verbatim>\<open>text/*/x\<close> is not the subtype wildcard \<^verbatim>\<open>text/*\<close>, so the selection as
  stated gives \<^verbatim>\<open>*/*\<close>. The loop splits the key at its slashes and tests the first two segments
  only: \<^verbatim>\<open>text/*/x\<close> scores 2 and is returned.
\<close>

theorem getSchemaForMediaType_counterexample:
  "getSchemaForMediaType Parsed (Some ''text/plain'')
     \<lparr> required = Some True, content = [(''*/*'', JObj []), (''text/*/x'', JObj [])] \<rparr>
     = Inr (Some ''text/*/x'')
   \<and> spec_mediaType ''text/plain'' [''*/*'', ''text/*/x''] = Some ''*/*''"
proof -
  have code: "mediaType_loop ''text/plain'' [''*/*'', ''text/*/x''] None 0 = Some ''text/*/x''"
    by (simp add: at_index_def subTypeWildCardPoints_def wildcardMatchPoints_def)
  have stated: "spec_mediaType ''text/plain'' [''*/*'', ''text/*/x''] = Some ''*/*''"
    by (simp add: spec_mediaType_def spec_score_def sublist_code prefix_code Let_def)
  from code stated show ?thesis
    by (simp add: getSchemaForMediaType_def)
qed

text \<open>
  C2, amended. For every header value and every \<^verbatim>\<open>content\<close> map the function returns: nothing
  for a missing (or empty) header; the first key that contains the parsed media type;
  otherwise the first key with the best score, where a key scores 2 when its second
  slash-separated segment is \<^verbatim>\<open>*\<close> and its first segment is the type of the parsed media type, and
  \<^verbatim>\<open>*/*\<close> scores 1; nothing when every key scores 0. The subtype wildcard \<^verbatim>\<open>type/*\<close> of the parsed
  type scores 2, and on keys with at most one slash the score is the one the specification
  states. A header the parser rejects as an invalid media type gives nothing, any other
  failure of the parser is thrown on. The three examples follow.
\<close>

theorem getSchemaForMediaType_scored:
  "getSchemaForMediaType parse contentTypeHeader spec =
           (case contentTypeHeader of
              None \<Rightarrow> Inr None
            | Some header \<Rightarrow>
                if header = [] then Inr None
                else (case parse header of
                        Parsed contentType \<Rightarrow>
                          Inr (scored_mediaType contentType (map fst (content spec)))
                      | InvalidMediaType \<Rightarrow> Inr None
                      | OtherFailure msg \<Rightarrow> Inl (ContentTypeFailure msg)))
   \<and> loop_score c (hd (split_slash c) @ ''/*'') = 2
   \<and> (length (split_slash key) \<le> 2 \<longrightarrow> loop_score c key = spec_score c key)
   \<and> scored_mediaType ''application/json'' [''application/json'', ''*/*'']
       = Some ''application/json''
   \<and> scored_mediaType ''text/x-custom'' [''text/*'', ''*/*''] = Some ''text/*''
   \<and> ((\<forall>k \<in> set keys. \<not> sublist c k \<and> loop_score c k \<noteq> 2) \<and> ''*/*'' \<in> set keys
        \<longrightarrow> scored_mediaType c keys = Some ''*/*'')"
proof -
  have code: "getSchemaForMediaType parse contentTypeHeader spec =
           (case contentTypeHeader of
              None \<Rightarrow> Inr None
            | Some header \<Rightarrow>
                if header = [] then Inr None
                else (case parse header of
                        Parsed contentType \<Rightarrow>
                          Inr (scored_mediaType contentType (map fst (content spec)))
                      | InvalidMediaType \<Rightarrow> Inr None
                      | OtherFailure msg \<Rightarrow> Inl (ContentTypeFailure msg)))"
    by (simp add: getSchemaForMediaType_def mediaType_loop_scored
        split: option.splits parsed_type.splits)
  have ex1: "scored_mediaType ''application/json'' [''application/json'', ''*/*'']
           = Some ''application/json''"
    by (simp add: scored_mediaType_def)
  have "mediaType_loop ''text/x-custom'' [''text/*'', ''*/*''] None 0 = Some ''text/*''"
    by (simp add: at_index_def subTypeWildCardPoints_def wildcardMatchPoints_def)
  then have ex2: "scored_mediaType ''text/x-custom'' [''text/*'', ''*/*''] = Some ''text/*''"
    by (simp only: mediaType_loop_scored)
  from code loop_score_subtype_wildcard [of c] loop_score_spec [of key c] ex1 ex2
    scored_mediaType_wildcard [of keys c]
  show ?thesis by blast
qed

text \<open>
  Two keys with the top score, \<^verbatim>\<open>text/*/x\<close> before \<^verbatim>\<open>text/*\<close>: the first is returned. And a content
  type that only \<^verbatim>\<open>*/*\<close> matches.
\<close>

theorem getSchemaForMediaType_scored_witness:
  "getSchemaForMediaType Parsed (Some ''text/plain'')
     \<lparr> required = Some True,
       content = [(''application/json'', JObj []), (''text/*/x'', JObj []),
                  (''text/*'', JObj []), (''*/*'', JObj [])] \<rparr>
     = Inr (Some ''text/*/x'')
   \<and> scored_mediaType ''image/png'' [''text/*'', ''application/json'', ''*/*''] = Some ''*/*''"
proof -
  let ?keys = "[''application/json'', ''text/*/x'', ''text/*'', ''*/*'']"
  let ?spec = "\<lparr> required = Some True,
       content = [(''application/json'', JObj []), (''text/*/x'', JObj []),
                  (''text/*'', JObj []), (''*/*'', JObj [])] \<rparr>"
  have "mediaType_loop ''text/plain'' ?keys None 0 = Some ''text/*/x''"
    by (simp add: at_index_def subTypeWildCardPoints_def wildcardMatchPoints_def)
  then have tie: "scored_mediaType ''text/plain'' (map fst (content ?spec)) = Some ''text/*/x''"
    by (simp add: mediaType_loop_scored)
  have only: "(\<forall>k \<in> set [''text/*'', ''application/json'', ''*/*''].
                 \<not> sublist ''image/png'' k \<and> loop_score ''image/png'' k \<noteq> 2)
              \<and> ''*/*'' \<in> set [''text/*'', ''application/json'', ''*/*'']"
    by (simp add: loop_score_def at_index_def sublist_code prefix_code)
  from getSchemaForMediaType_scored
    [of Parsed "Some ''text/plain''" ?spec "''image/png''" "''*/*''"
      "[''text/*'', ''application/json'', ''*/*'']"]
    tie only
  show ?thesis by simp
qed

section \<open>Read-only properties and \<^verbatim>\<open>required\<close>\<close>

text \<open>
  One step of the loop over the read-only names. A name that is listed in \<^verbatim>\<open>required\<close> loses its
  first entry there; for a name that is not listed, the last entry of \<^verbatim>\<open>required\<close> is removed
  instead, whatever it names.
\<close>

lemma array_indexOf_absent: "v \<notin> set rs \<Longrightarrow> array_indexOf rs v = - 1"
  by (induction rs) (auto simp: Let_def)

lemma array_indexOf_present:
  "v \<in> set rs \<Longrightarrow> 0 \<le> array_indexOf rs v \<and> array_indexOf rs v < int (length rs)"
  by (induction rs) (auto simp: Let_def)

lemma splice1_present: "v \<in> set rs \<Longrightarrow> splice1 (array_indexOf rs v) rs = remove1 v rs"
proof (induction rs)
  case Nil
  then show ?case by simp
next
  case (Cons x xs)
  show ?case
  proof (cases "x = v")
    case True
    then show ?thesis by (simp add: splice1_def)
  next
    case False
    with Cons.prems have v: "v \<in> set xs" by simp
    from array_indexOf_present [OF v] obtain i where i: "array_indexOf xs v = int i" "i < length xs"
      by (metis nat_less_iff nonneg_int_cases of_nat_less_iff)
    from Cons.IH [OF v] i have "take i xs @ drop (Suc i) xs = remove1 v xs"
      by (simp add: splice1_def Let_def)
    with False i show ?thesis
      by (simp add: splice1_def Let_def nat_add_distrib)
  qed
qed

lemma splice1_absent: "v \<notin> set rs \<Longrightarrow> splice1 (array_indexOf rs v) rs = butlast rs"
proof -
  assume "v \<notin> set rs"
  then have "array_indexOf rs v = - 1" by (rule array_indexOf_absent)
  then show ?thesis
    by (cases "rs = []") (simp_all add: splice1_def Let_def butlast_conv_take nat_diff_distrib')
qed

text \<open>
  C4 at an input where a read-only property is not listed in \<^verbatim>\<open>required\<close>: the schema
  \<^verbatim>\<open>{properties: {id: {readOnly: true}, name: {type: 'string'}}, required: ['name']}\<close>. The name
  \<^verbatim>\<open>id\<close> is not found, \<^verbatim>\<open>indexOf\<close> gives \<open>-1\<close>, and \<^verbatim>\<open>splice(-1, 1)\<close> removes the last entry of
  \<^verbatim>\<open>required\<close>: the entry \<^verbatim>\<open>name\<close> of a property that is not read-only.
\<close>

theorem sanitizeReadonlyPropertiesFromRequired_removes_other_entry:
  "sanitizeReadonlyPropertiesFromRequired
     (JObj [(''properties'',
               JObj [(''id'', JObj [(''readOnly'', JBool True)]),
                     (''name'', JObj [(''type'', JStr ''string'')])]),
            (''required'', JArr [JStr ''name''])])
   = Inr (JObj [(''properties'',
                   JObj [(''id'', JObj [(''readOnly'', JBool True)]),
                         (''name'', JObj [(''type'', JStr ''string'')])]),
                (''required'', JArr [])])"
  by (simp add: sanitizeReadonlyPropertiesFromRequired_def then_do_def readOnly_key_def
      List.map_filter_def splice1_def)

section \<open>The outcome of \<^verbatim>\<open>validate\<close>\<close>

lemma check_path_passes:
  "passes (validatePath this) (Some (or_empty (params request)))
     \<Longrightarrow> check_path this request s = s"
  by (simp add: check_path_def passes_def run_predicate_def split: option.splits)

lemma check_headers_passes:
  "passes (validateHeaders this) (Some (headers_object (headers request)))
     \<Longrightarrow> check_headers this request s = s"
  by (simp add: check_headers_def passes_def run_predicate_def split: option.splits)

lemma check_query_passes:
  "passes (validateQuery this) (Some (or_empty (query request)))
     \<Longrightarrow> check_query this request s = s"
  by (simp add: check_query_def passes_def run_predicate_def split: option.splits)

lemma check_formData_passes:
  "passes (validateFormData this) (body request) \<Longrightarrow> check_formData this request s = s"
  by (simp add: check_formData_def passes_def run_predicate_def split: option.splits)

lemma check_formData_skipped:
  "schemaError s \<noteq> None \<Longrightarrow> check_formData this request s = s"
  by (auto simp: check_formData_def split: option.splits)

text \<open>What the constructor stores about the \<^verbatim>\<open>requestBody\<close>.\<close>

lemma OpenAPIRequestValidator_requestBody:
  assumes "OpenAPIRequestValidator e fuel args = Some (Inr this)"
    and "arg_requestBody args = Some spec"
  shows "requestBody this = Some spec"
    and "isBodyRequired this = (required spec = Some True)"
  using assms
  by (auto simp: OpenAPIRequestValidator_def Let_def then_fuel_def
      split: if_splits option.splits sum.splits prod.splits)

lemma run_predicate_fields:
  "errors (run_predicate loc g data s) = errors s @ part_errors loc (Some g) data"
  "schemaError (run_predicate loc g data s) = schemaError s"
  "mediaTypeError (run_predicate loc g data s) = mediaTypeError s"
  by (simp_all add: run_predicate_def part_errors_def split: option.splits)

text \<open>
  The last three steps are always taken: whatever the body steps have recorded, the
  violations of the path, the headers and the query are appended, in this order, and the two
  other variables are left alone.
\<close>

lemma check_path_fields:
  "errors (check_path this request s)
     = errors s @ part_errors ''path'' (validatePath this) (Some (or_empty (params request)))"
  "schemaError (check_path this request s) = schemaError s"
  "mediaTypeError (check_path this request s) = mediaTypeError s"
  by (simp_all add: check_path_def run_predicate_fields split: option.splits)
    (simp add: part_errors_def)

lemma check_headers_fields:
  "errors (check_headers this request s)
     = errors s @ part_errors ''headers'' (validateHeaders this)
                    (Some (headers_object (headers request)))"
  "schemaError (check_headers this request s) = schemaError s"
  "mediaTypeError (check_headers this request s) = mediaTypeError s"
  by (simp_all add: check_headers_def run_predicate_fields split: option.splits)
    (simp add: part_errors_def)

lemma check_query_fields:
  "errors (check_query this request s)
     = errors s @ part_errors ''query'' (validateQuery this) (Some (or_empty (query request)))"
  "schemaError (check_query this request s) = schemaError s"
  "mediaTypeError (check_query this request s) = mediaTypeError s"
  by (simp_all add: check_query_def run_predicate_fields split: option.splits)
    (simp add: part_errors_def)

lemma run_checks_collects:
  assumes "run_checks parse this request = Inr s"
  shows "\<exists>earlier. errors s =
           earlier
           @ part_errors ''path'' (validatePath this) (Some (or_empty (params request)))
           @ part_errors ''headers'' (validateHeaders this)
               (Some (headers_object (headers request)))
           @ part_errors ''query'' (validateQuery this) (Some (or_empty (query request)))"
proof -
  from assms obtain s2 where
    "s = check_query this request (check_headers this request
           (check_path this request (check_formData this request s2)))"
    by (auto simp: run_checks_def then_do_def split: sum.splits)
  then show ?thesis
    by (simp add: check_query_fields check_headers_fields check_path_fields)
qed

text \<open>
  C1. A call of \<^verbatim>\<open>validate\<close> either throws or returns one value, and that value is decided by the
  three local variables in a fixed order: when violations were collected the result is status
  400 with every violation mapped by the error mapper, whatever the other two variables hold
  (so field errors win over a missing body); otherwise the missing-body error gives status 400
  with that single error; otherwise the media type error gives status 415 with that single
  error; otherwise nothing is returned. The violations of the path, the headers and the query
  are always among the collected ones, also when the body is missing.
\<close>

theorem validate_classification:
  "(\<forall>e. run_checks parse this request = Inl e \<longrightarrow> validate parse this request = Inl e)
   \<and> (\<forall>s. run_checks parse this request = Inr s \<longrightarrow>
         (errors s \<noteq> [] \<longrightarrow>
            validate parse this request =
              Inr (Some \<lparr> status = 400, result_errors = map (errorMapper this) (errors s) \<rparr>))
       \<and> (\<forall>e. errors s = [] \<and> schemaError s = Some e \<longrightarrow>
            validate parse this request = Inr (Some \<lparr> status = 400, result_errors = [e] \<rparr>))
       \<and> (\<forall>e. errors s = [] \<and> schemaError s = None \<and> mediaTypeError s = Some e \<longrightarrow>
            validate parse this request = Inr (Some \<lparr> status = 415, result_errors = [e] \<rparr>))
       \<and> (errors s = [] \<and> schemaError s = None \<and> mediaTypeError s = None \<longrightarrow>
            validate parse this request = Inr None)
       \<and> (\<exists>earlier. errors s =
             earlier
             @ part_errors ''path'' (validatePath this) (Some (or_empty (params request)))
             @ part_errors ''headers'' (validateHeaders this)
                 (Some (headers_object (headers request)))
             @ part_errors ''query'' (validateQuery this) (Some (or_empty (query request)))))"
proof (intro conjI allI impI)
  fix e
  assume "run_checks parse this request = Inl e"
  then show "validate parse this request = Inl e"
    by (simp add: validate_def then_do_def)
next
  fix s
  assume run: "run_checks parse this request = Inr s"
  {
    assume "errors s \<noteq> []"
    with run show "validate parse this request =
        Inr (Some \<lparr> status = 400, result_errors = map (errorMapper this) (errors s) \<rparr>)"
      by (simp add: validate_def classify_def then_do_def)
  next
    fix e
    assume "errors s = [] \<and> schemaError s = Some e"
    with run show "validate parse this request =
        Inr (Some \<lparr> status = 400, result_errors = [e] \<rparr>)"
      by (simp add: validate_def classify_def then_do_def)
  next
    fix e
    assume "errors s = [] \<and> schemaError s = None \<and> mediaTypeError s = Some e"
    with run show "validate parse this request =
        Inr (Some \<lparr> status = 415, result_errors = [e] \<rparr>)"
      by (simp add: validate_def classify_def then_do_def)
  next
    assume "errors s = [] \<and> schemaError s = None \<and> mediaTypeError s = None"
    with run show "validate parse this request = Inr None"
      by (simp add: validate_def classify_def then_do_def)
  next
    from run show "\<exists>earlier. errors s =
             earlier
             @ part_errors ''path'' (validatePath this) (Some (or_empty (params request)))
             @ part_errors ''headers'' (validateHeaders this)
                 (Some (headers_object (headers request)))
             @ part_errors ''query'' (validateQuery this) (Some (or_empty (query request)))"
      by (rule run_checks_collects)
  }
qed

theorem validate_classification_witness:
  "(\<exists>s e. run_checks Parsed rejecting_headers_validator json_request_without_body = Inr s
          \<and> errors s \<noteq> [] \<and> schemaError s = Some e)
   \<and> validate Parsed rejecting_headers_validator json_request_without_body =
       Inr (Some \<lparr> status = 400,
                   result_errors =
                     [\<lparr> ve_path = Some ''x-api-key'',
                        ve_errorCode = Some ''required.openapi.validation'',
                        ve_message = ''should have required property x-api-key'',
                        ve_location = Some ''headers'',
                        ve_schema = None \<rparr>] \<rparr>)"
proof -
  let ?violation = "\<lparr> keyword = ''required'', dataPath = [],
                      missingProperty = Some ''x-api-key'', ref = None,
                      message = ''should have required property x-api-key'',
                      location = Some ''headers'' \<rparr>"
  let ?s = "\<lparr> errors = [?violation],
              schemaError = Some (missing_body_error (JObj [(''type'', JStr ''object'')])),
              mediaTypeError = None \<rparr>"
  have run: "run_checks Parsed rejecting_headers_validator json_request_without_body = Inr ?s"
    by (simp add: run_checks_def check_bodySchema_def check_requestBody_def
        getSchemaForMediaType_def media_type_match_def present_body_def check_formData_def
        check_path_def check_headers_def check_query_def run_predicate_def withAddedLocation_def
        then_do_def rejecting_headers_validator_def json_request_without_body_def)
  have mapped: "map (errorMapper rejecting_headers_validator) (errors ?s) =
      [\<lparr> ve_path = Some ''x-api-key'',
         ve_errorCode = Some ''required.openapi.validation'',
         ve_message = ''should have required property x-api-key'',
         ve_location = Some ''headers'',
         ve_schema = None \<rparr>]"
    by (simp add: rejecting_headers_validator_def toOpenapiValidationError_def
        stripBodyInfo_def strip_prefix_dot_def Let_def)
  from validate_classification [of Parsed rejecting_headers_validator json_request_without_body]
    run mapped
  show ?thesis by simp
qed

section \<open>The example validator is what the constructor builds\<close>

lemma json_body_validator_constructed:
  "OpenAPIRequestValidator accepting_engine (Suc 0) (json_body_args req)
     = Some (Inr (json_body_validator req))"
  by (simp add: OpenAPIRequestValidator_def json_body_args_def json_body_validator_def
      accepting_engine_def Let_def then_fuel_def then_do_def compile_media_type_def
      compile_part_def when_truthy_def lowercasedHeaders_def
      requestBody_validation_schema_def transformOpenAPIV3Definitions_def
      nullable_rewrite_def)

section \<open>Missing body, unsupported media type, optional body\<close>

text \<open>The first key that contains the parsed media type is the match.\<close>

lemma mediaType_loop_containing:
  assumes "key \<in> set keys" "sublist c key"
  shows "\<exists>k. mediaType_loop c keys None 0 = Some k \<and> k \<in> set keys \<and> sublist c k"
proof -
  from assms have "find (\<lambda>k. sublist c k) keys \<noteq> None"
    by (auto simp: find_None_iff)
  then obtain k where k: "find (\<lambda>k. sublist c k) keys = Some k" by auto
  then have "k \<in> set keys \<and> sublist c k"
    by (auto simp: find_Some_iff)
  with k show ?thesis by (simp add: mediaType_loop_best)
qed

lemma check_bodySchema_without_body:
  assumes "present_body request = None"
  shows "\<exists>e. check_bodySchema this request no_checks = Inr (no_checks\<lparr>schemaError := e\<rparr>)"
  using assms
  by (auto simp: check_bodySchema_def no_checks_def split: option.splits)

text \<open>
  C6. A validator constructed with a required \<^verbatim>\<open>requestBody\<close> whose \<^verbatim>\<open>content\<close> has the key
  \<^verbatim>\<open>application/json\<close>; a request with \<^verbatim>\<open>content-type: application/json\<close> and no body, whose path,
  header and query checks pass. Some key of \<^verbatim>\<open>content\<close> is matched, and \<^verbatim>\<open>validate\<close> returns status
  400 with exactly one error: its location is \<^verbatim>\<open>body\<close>, its schema is the schema stored under the
  matched key, and it has no path.
\<close>

theorem validate_missing_required_body:
  assumes "OpenAPIRequestValidator e fuel args = Some (Inr this)"
    and "arg_requestBody args = Some spec"
    and "required spec = Some True"
    and "map_of (content spec) ''application/json'' = Some jsonSchema"
    and "headers request = Some hs"
    and "map_of hs ''content-type'' = Some ''application/json''"
    and "parse ''application/json'' = Parsed ''application/json''"
    and "present_body request = None"
    and "passes (validatePath this) (Some (or_empty (params request)))"
    and "passes (validateHeaders this) (Some (headers_object (headers request)))"
    and "passes (validateQuery this) (Some (or_empty (query request)))"
  shows "\<exists>key schema.
           getSchemaForMediaType parse (map_of hs ''content-type'') spec = Inr (Some key)
         \<and> map_of (content spec) key = Some schema
         \<and> validate parse this request =
             Inr (Some \<lparr> status = 400, result_errors = [missing_body_error schema] \<rparr>)
         \<and> ve_location (missing_body_error schema) = Some ''body''
         \<and> ve_schema (missing_body_error schema) = Some schema
         \<and> ve_path (missing_body_error schema) = None"
proof -
  from OpenAPIRequestValidator_requestBody [OF assms(1,2)] assms(3)
  have stored: "requestBody this = Some spec" "isBodyRequired this" by simp_all
  from assms(4) have "''application/json'' \<in> set (map fst (content spec))"
    by (metis map_of_eq_None_iff option.discI set_map)
  from mediaType_loop_containing [OF this sublist_order.order_refl]
  obtain key where key: "mediaType_loop ''application/json'' (map fst (content spec)) None 0 = Some key"
    "key \<in> set (map fst (content spec))" "sublist ''application/json'' key"
    by blast
  from key(3) have nonempty: "key \<noteq> []" by auto
  from key(2) obtain schema where schema: "map_of (content spec) key = Some schema"
    by (metis map_of_eq_None_iff not_Some_eq set_map)
  have matched: "getSchemaForMediaType parse (map_of hs ''content-type'') spec = Inr (Some key)"
    using assms(6,7) key(1) by (simp add: getSchemaForMediaType_def)
  from check_bodySchema_without_body [OF assms(8), of this]
  obtain e0 where first: "check_bodySchema this request no_checks = Inr (no_checks\<lparr>schemaError := e0\<rparr>)"
    by blast
  let ?s = "no_checks\<lparr>schemaError := Some (missing_body_error schema)\<rparr>"
  have second: "check_requestBody parse this request (no_checks\<lparr>schemaError := e0\<rparr>) = Inr ?s"
    using stored assms(5,8) matched nonempty schema
    by (simp add: check_requestBody_def media_type_match_def then_do_def no_checks_def)
  have rest: "check_query this request (check_headers this request
                (check_path this request (check_formData this request ?s))) = ?s"
    using assms(9,10,11)
    by (simp add: check_formData_skipped check_path_passes check_headers_passes
        check_query_passes)
  have "run_checks parse this request = Inr ?s"
    using first second rest by (simp add: run_checks_def then_do_def no_checks_def)
  then have "validate parse this request =
             Inr (Some \<lparr> status = 400, result_errors = [missing_body_error schema] \<rparr>)"
    by (simp add: validate_def classify_def then_do_def no_checks_def)
  with matched schema show ?thesis
    by (auto simp: missing_body_error_def)
qed

theorem validate_missing_required_body_witness:
  "validate Parsed (json_body_validator True)
     \<lparr> body = None, headers = Some [(''content-type'', ''application/json'')],
       params = None, query = None \<rparr>
   = Inr (Some \<lparr> status = 400,
                 result_errors = [missing_body_error (JObj [(''type'', JStr ''object'')])] \<rparr>)"
proof -
  let ?request = "\<lparr> body = None, headers = Some [(''content-type'', ''application/json'')],
       params = None, query = None \<rparr>"
  have spec: "arg_requestBody (json_body_args True) =
      Some \<lparr> required = Some True,
             content = [(''application/json'', JObj [(''type'', JStr ''object'')])] \<rparr>"
    by (simp add: json_body_args_def)
  from validate_missing_required_body
    [OF json_body_validator_constructed spec, of "JObj [(''type'', JStr ''object'')]"
      ?request "[(''content-type'', ''application/json'')]" Parsed]
  show ?thesis
    by (auto simp: present_body_def passes_def json_body_validator_def split: if_splits)
qed

text \<open>
  C7. A validator constructed with a required \<^verbatim>\<open>requestBody\<close> whose only media type key is
  \<^verbatim>\<open>application/json\<close>; a request with \<^verbatim>\<open>content-type: application/xml\<close> for which the step of the
  parameter-built body schema records nothing and the form data, path, header and query
  checks pass. \<^verbatim>\<open>validate\<close> returns status 415 with the single error whose message is
  \<^verbatim>\<open>Unsupported Content-Type application/xml\<close>.
\<close>

theorem validate_unsupported_media_type:
  assumes "OpenAPIRequestValidator e fuel args = Some (Inr this)"
    and "arg_requestBody args = Some spec"
    and "required spec = Some True"
    and "map fst (content spec) = [''application/json'']"
    and "headers request = Some hs"
    and "map_of hs ''content-type'' = Some ''application/xml''"
    and "parse ''application/xml'' = Parsed ''application/xml''"
    and "check_bodySchema this request no_checks = Inr no_checks"
    and "passes (validateFormData this) (body request)"
    and "passes (validatePath this) (Some (or_empty (params request)))"
    and "passes (validateHeaders this) (Some (headers_object (headers request)))"
    and "passes (validateQuery this) (Some (or_empty (query request)))"
  shows "validate parse this request =
           Inr (Some \<lparr> status = 415,
                       result_errors = [unsupported_media_type_error ''application/xml''] \<rparr>)
       \<and> ve_message (unsupported_media_type_error ''application/xml'')
           = ''Unsupported Content-Type application/xml''"
proof -
  from OpenAPIRequestValidator_requestBody [OF assms(1,2)]
  have stored: "requestBody this = Some spec" by simp
  have "mediaType_loop ''application/xml'' [''application/json''] None 0 = None"
    by (simp add: at_index_def)
  with assms(4,6,7)
  have unmatched: "getSchemaForMediaType parse (map_of hs ''content-type'') spec = Inr None"
    by (simp add: getSchemaForMediaType_def)
  let ?s = "no_checks\<lparr>mediaTypeError :=
              Some (unsupported_media_type_error ''application/xml'')\<rparr>"
  have second: "check_requestBody parse this request no_checks = Inr ?s"
    using stored assms(5,6) unmatched
    by (simp add: check_requestBody_def no_media_type_match_def then_do_def)
  have rest: "check_query this request (check_headers this request
                (check_path this request (check_formData this request ?s))) = ?s"
    using assms(9,10,11,12)
    by (simp add: check_formData_passes check_path_passes check_headers_passes
        check_query_passes)
  have "run_checks parse this request = Inr ?s"
    using assms(8) second rest by (simp add: run_checks_def then_do_def no_checks_def)
  then show ?thesis
    by (simp add: validate_def classify_def then_do_def no_checks_def
        unsupported_media_type_error_def)
qed

theorem validate_unsupported_media_type_witness:
  "validate Parsed (json_body_validator True)
     \<lparr> body = Some (JObj []), headers = Some [(''content-type'', ''application/xml'')],
       params = None, query = None \<rparr>
   = Inr (Some \<lparr> status = 415,
                 result_errors =
                   [\<lparr> ve_path = None, ve_errorCode = None,
                      ve_message = ''Unsupported Content-Type application/xml'',
                      ve_location = None, ve_schema = None \<rparr>] \<rparr>)"
proof -
  let ?request = "\<lparr> body = Some (JObj []),
       headers = Some [(''content-type'', ''application/xml'')], params = None, query = None \<rparr>"
  have spec: "arg_requestBody (json_body_args True) =
      Some \<lparr> required = Some True,
             content = [(''application/json'', JObj [(''type'', JStr ''object'')])] \<rparr>"
    by (simp add: json_body_args_def)
  from validate_unsupported_media_type
    [OF json_body_validator_constructed spec, of ?request
      "[(''content-type'', ''application/xml'')]" Parsed]
  show ?thesis
    by (simp add: passes_def json_body_validator_def check_bodySchema_def
        unsupported_media_type_error_def)
qed

text \<open>
  A validator constructed with a \<^verbatim>\<open>requestBody\<close> that is not required, and without a body
  schema from \<^verbatim>\<open>parameters\<close>; a request whose \<^verbatim>\<open>headers\<close> member is an object without
  \<^verbatim>\<open>content-type\<close>, whatever its body. No media type is matched, the three local variables stay
  empty after the two body steps, and when the form data, path, header and query checks pass
  \<^verbatim>\<open>validate\<close> returns nothing. No predicate of a media type is asked: the statement holds for
  every body and for every table of media type predicates.
\<close>

lemma validate_optional_body_with_headers:
  assumes "OpenAPIRequestValidator e fuel args = Some (Inr this)"
    and "arg_requestBody args = Some spec"
    and "required spec \<noteq> Some True"
    and "bodySchema this = None"
    and "headers request = Some hs"
    and "map_of hs ''content-type'' = None"
    and "passes (validateFormData this) (body request)"
    and "passes (validatePath this) (Some (or_empty (params request)))"
    and "passes (validateHeaders this) (Some (headers_object (headers request)))"
    and "passes (validateQuery this) (Some (or_empty (query request)))"
  shows "getSchemaForMediaType parse (map_of hs ''content-type'') spec = Inr None
       \<and> then_do (check_bodySchema this request no_checks) (check_requestBody parse this request)
           = Inr no_checks
       \<and> validate parse this request = Inr None
       \<and> (passes (validateFormData this) b \<longrightarrow>
            validate parse (this\<lparr>requestBodyValidators := table\<rparr>) (request\<lparr>body := b\<rparr>)
              = Inr None)"
proof -
  from OpenAPIRequestValidator_requestBody [OF assms(1,2)] assms(3)
  have stored: "requestBody this = Some spec" "\<not> isBodyRequired this" by simp_all
  have unmatched: "getSchemaForMediaType parse (map_of hs ''content-type'') spec = Inr None"
    using assms(6) by (simp add: getSchemaForMediaType_def)
  have steps: "then_do (check_bodySchema this' request' no_checks)
                 (check_requestBody parse this' request') = Inr no_checks"
    if "requestBody this' = Some spec" "\<not> isBodyRequired this'" "bodySchema this' = None"
      "headers request' = Some hs" for this' request'
    using that unmatched assms(6)
    by (simp add: check_bodySchema_def check_requestBody_def no_media_type_match_def
        then_do_def)
  have result: "validate parse this' request' = Inr None"
    if "requestBody this' = Some spec" "\<not> isBodyRequired this'" "bodySchema this' = None"
      "headers request' = Some hs"
      "passes (validateFormData this') (body request')"
      "passes (validatePath this') (Some (or_empty (params request')))"
      "passes (validateHeaders this') (Some (headers_object (headers request')))"
      "passes (validateQuery this') (Some (or_empty (query request')))" for this' request'
  proof -
    from steps [OF that(1-4)]
    have "run_checks parse this' request' =
        Inr (check_query this' request' (check_headers this' request'
              (check_path this' request' (check_formData this' request' no_checks))))"
      by (auto simp: run_checks_def then_do_def no_checks_def split: sum.splits)
    with that(5-8) show ?thesis
      by (simp add: check_formData_passes check_path_passes check_headers_passes
          check_query_passes validate_def classify_def then_do_def no_checks_def)
  qed
  have other: "validate parse (this\<lparr>requestBodyValidators := table\<rparr>) (request\<lparr>body := b\<rparr>)
      = Inr None" if "passes (validateFormData this) b"
    using stored assms(4,5,8,9,10) that
    by (intro result) simp_all
  from unmatched steps [OF stored assms(4,5)] result [OF stored assms(4,5,7,8,9,10)] other
  show ?thesis by simp
qed

text \<open>
  A request without a \<^verbatim>\<open>headers\<close> member has no \<^verbatim>\<open>content-type\<close> header either. With a
  \<^verbatim>\<open>requestBody\<close> configured, and when the step of the parameter-built body schema does not
  throw, \<^verbatim>\<open>request.headers['content-type']\<close> is a member read of \<^verbatim>\<open>undefined\<close>: the call throws.
\<close>

lemma validate_without_headers_throws:
  assumes "requestBody this = Some spec"
    and "headers request = None"
    and "check_bodySchema this request no_checks = Inr s"
  shows "validate parse this request = Inl TypeError"
  using assms
  by (simp add: validate_def run_checks_def check_requestBody_def then_do_def no_checks_def)

text \<open>
  C10 at a request that carries a body and has no \<^verbatim>\<open>headers\<close> member, to the validator constructed
  from a \<^verbatim>\<open>requestBody\<close> that is not required (and no \<^verbatim>\<open>parameters\<close>): the request has no
  \<^verbatim>\<open>content-type\<close> header and every other check passes, and \<^verbatim>\<open>validate\<close> throws a \<^verbatim>\<open>TypeError\<close> instead
  of returning nothing. The header step reads \<^verbatim>\<open>request.headers || {}\<close>; the \<^verbatim>\<open>requestBody\<close> step
  reads \<^verbatim>\<open>request.headers\<close> as it is. With an empty \<^verbatim>\<open>headers\<close> object the same request is valid.
\<close>

theorem validate_optional_body_without_headers_throws:
  "OpenAPIRequestValidator accepting_engine (Suc 0) (json_body_args False)
     = Some (Inr (json_body_validator False))
   \<and> validate Parsed (json_body_validator False)
       \<lparr> body = Some (JObj [(''name'', JStr ''x'')]), headers = None,
         params = None, query = None \<rparr>
     = Inl TypeError
   \<and> validate Parsed (json_body_validator False)
       \<lparr> body = Some (JObj [(''name'', JStr ''x'')]), headers = Some [],
         params = None, query = None \<rparr>
     = Inr None"
proof -
  have without: "validate Parsed (json_body_validator False)
       \<lparr> body = Some (JObj [(''name'', JStr ''x'')]), headers = None,
         params = None, query = None \<rparr>
     = Inl TypeError"
    by (simp add: validate_def run_checks_def check_bodySchema_def check_requestBody_def
        then_do_def json_body_validator_def)
  have empty: "validate Parsed (json_body_validator False)
       \<lparr> body = Some (JObj [(''name'', JStr ''x'')]), headers = Some [],
         params = None, query = None \<rparr>
     = Inr None"
    by (simp add: validate_def run_checks_def classify_def check_bodySchema_def
        check_requestBody_def no_media_type_match_def getSchemaForMediaType_def
        check_formData_def check_path_def check_headers_def check_query_def
        then_do_def json_body_validator_def)
  from json_body_validator_constructed [of False] without empty show ?thesis by simp
qed

section \<open>Header names and their case\<close>

lemma letters_disjoint: "set lower_letters \<inter> set upper_letters = {}"
  by (simp add: lower_letters_def upper_letters_def)

lemma letters_below: "\<forall>l \<in> set lower_letters \<union> set upper_letters. (of_char l :: nat) < 192"
  by (simp add: lower_letters_def upper_letters_def)

lemma upper_letters_keys: "fst ` set (zip upper_letters lower_letters) = set upper_letters"
proof -
  have "map fst (zip upper_letters lower_letters) = upper_letters"
    by (simp add: lower_letters_def upper_letters_def)
  then show ?thesis by (metis set_map)
qed

lemma toLowerCase_char_idem: "toLowerCase_char (toLowerCase_char c) = toLowerCase_char c"
proof (cases "map_of (zip upper_letters lower_letters) c")
  case (Some l)
  then have "(c, l) \<in> set (zip upper_letters lower_letters)" by (rule map_of_SomeD)
  then have l: "l \<in> set lower_letters" by (rule set_zip_rightD)
  with letters_disjoint have "l \<notin> set upper_letters" by blast
  then have "map_of (zip upper_letters lower_letters) l = None"
    by (simp add: map_of_eq_None_iff upper_letters_keys)
  moreover from l letters_below have "(of_char l :: nat) < 192" by blast
  ultimately have "toLowerCase_char l = l"
    by (simp add: toLowerCase_char_def Let_def)
  with Some show ?thesis by (simp add: toLowerCase_char_def)
next
  case None
  let ?n = "of_char c :: nat"
  show ?thesis
  proof (cases "(192 \<le> ?n \<and> ?n \<le> 214) \<or> (216 \<le> ?n \<and> ?n \<le> 222)")
    case False
    with None have "toLowerCase_char c = c"
      by (auto simp: toLowerCase_char_def Let_def)
    then show ?thesis by (simp only:)
  next
    case True
    let ?l = "char_of (?n + 32) :: char"
    from True have code: "(of_char ?l :: nat) = ?n + 32" by auto
    have "?l \<notin> set upper_letters"
    proof
      assume "?l \<in> set upper_letters"
      with letters_below have "(of_char ?l :: nat) < 192" by blast
      with code True show False by arith
    qed
    then have "map_of (zip upper_letters lower_letters) ?l = None"
      by (simp add: map_of_eq_None_iff upper_letters_keys)
    moreover from code True
    have "\<not> ((192 \<le> (of_char ?l :: nat) \<and> (of_char ?l :: nat) \<le> 214)
              \<or> (216 \<le> (of_char ?l :: nat) \<and> (of_char ?l :: nat) \<le> 222))"
      by arith
    ultimately have "toLowerCase_char ?l = ?l"
      by (simp only: toLowerCase_char_def Let_def option.case if_False)
    moreover from None True have "toLowerCase_char c = ?l"
      by (simp add: toLowerCase_char_def Let_def)
    ultimately show ?thesis by (simp only:)
  qed
qed

lemma toLowerCase_idem: "toLowerCase (toLowerCase s) = toLowerCase s"
  by (simp add: toLowerCase_def toLowerCase_char_idem)

text \<open>
  In the header schema that \<^verbatim>\<open>lowercasedHeaders\<close> returns every property key and every entry of
  \<^verbatim>\<open>required\<close> is lowercase.
\<close>

lemma lowercase_property_keys:
  assumes "\<forall>k \<in> fst ` set ps. toLowerCase k = k \<or> k \<in> set (h # rest)"
  shows "\<forall>k \<in> fst ` set (lowercase_property h ps). toLowerCase k = k \<or> k \<in> set rest"
proof (cases "map_of ps h")
  case None
  then have "h \<notin> fst ` set ps" by (simp add: map_of_eq_None_iff)
  with assms None show ?thesis
    by (auto simp: lowercase_property_def)
next
  case (Some property)
  have "fst ` set (AList.update (toLowerCase h) property (AList.delete h ps))
          = insert (toLowerCase h) (fst ` set ps - {h})"
    by (auto simp: dom_update AList.delete_eq)
  with assms Some show ?thesis
    by (auto simp: lowercase_property_def toLowerCase_idem)
qed

lemma fold_lowercase_property_keys:
  "\<forall>k \<in> fst ` set ps. toLowerCase k = k \<or> k \<in> set hs
     \<Longrightarrow> \<forall>k \<in> fst ` set (fold lowercase_property hs ps). toLowerCase k = k"
proof (induction hs arbitrary: ps)
  case Nil
  then show ?case by simp
next
  case (Cons h hs)
  from lowercase_property_keys [OF Cons.prems] Cons.IH show ?case by simp
qed

lemma lowercasedHeaders_lowercase:
  assumes "lowercasedHeaders (Some hs) = Some hs'"
  shows "\<forall>k \<in> fst ` set (hs_properties hs'). toLowerCase k = k"
    and "\<forall>rs. hs_required hs' = Some rs \<longrightarrow> (\<forall>r \<in> set rs. toLowerCase r = r)"
proof -
  have "\<forall>k \<in> fst ` set (hs_properties hs). toLowerCase k = k \<or> k \<in> set (map fst (hs_properties hs))"
    by simp
  from fold_lowercase_property_keys [OF this] assms
  show "\<forall>k \<in> fst ` set (hs_properties hs'). toLowerCase k = k"
    by (auto simp: lowercasedHeaders_def)
  from assms show "\<forall>rs. hs_required hs' = Some rs \<longrightarrow> (\<forall>r \<in> set rs. toLowerCase r = r)"
    by (auto simp: lowercasedHeaders_def toLowerCase_idem split: option.splits if_splits)
qed

text \<open>
  The header predicate is given the same object for a request and for that request with its
  header names in lowercase.
\<close>

lemma lowercaseRequestHeaders_lowercased:
  "lowercaseRequestHeaders (map (\<lambda>(name, v). (toLowerCase name, v)) hs)
     = lowercaseRequestHeaders hs"
proof -
  have "(\<lambda>(header, v). AList.update (toLowerCase header) v) \<circ> (\<lambda>(name, v). (toLowerCase name, v))
      = (\<lambda>(header, v :: 'a). AList.update (toLowerCase header) v)"
    by (auto simp: fun_eq_iff toLowerCase_idem)
  then show ?thesis
    by (simp add: lowercaseRequestHeaders_def fold_map)
qed

lemma check_headers_lowercased:
  "check_headers this (request\<lparr>headers := Some (map (\<lambda>(name, v). (toLowerCase name, v)) hs)\<rparr>) s
     = check_headers this (request\<lparr>headers := Some hs\<rparr>) s"
  by (simp add: check_headers_def headers_object_def lowercaseRequestHeaders_lowercased
      split: option.splits)

text \<open>
  C8 at a request whose content type is sent under the name \<^verbatim>\<open>Content-Type\<close>, to a validator with
  a required \<^verbatim>\<open>requestBody\<close> for \<^verbatim>\<open>application/json\<close>. The \<^verbatim>\<open>requestBody\<close> step reads
  \<^verbatim>\<open>request.headers['content-type']\<close> and finds nothing, so the request is answered with status 400,
  \<^verbatim>\<open>media type is not specified\<close>; the same request with the name in lowercase is valid.
\<close>

theorem validate_header_case_differs:
  "validate Parsed (json_body_validator True)
     \<lparr> body = Some (JObj []), headers = Some [(''Content-Type'', ''application/json'')],
       params = None, query = None \<rparr>
   = Inr (Some \<lparr> status = 400,
                 result_errors =
                   [\<lparr> ve_path = None,
                      ve_errorCode = Some ''required.openapi.validation'',
                      ve_message = ''media type is not specified'',
                      ve_location = Some ''body'',
                      ve_schema = None \<rparr>] \<rparr>)
   \<and> map (\<lambda>(name, v). (toLowerCase name, v)) [(''Content-Type'', ''application/json'')]
       = [(''content-type'', ''application/json'')]
   \<and> validate Parsed (json_body_validator True)
     \<lparr> body = Some (JObj []), headers = Some [(''content-type'', ''application/json'')],
       params = None, query = None \<rparr>
   = Inr None"
proof -
  have lower: "toLowerCase ''Content-Type'' = ''content-type''"
    by (simp add: toLowerCase_def toLowerCase_char_def upper_letters_def lower_letters_def)
  have mixed: "validate Parsed (json_body_validator True)
     \<lparr> body = Some (JObj []), headers = Some [(''Content-Type'', ''application/json'')],
       params = None, query = None \<rparr>
   = Inr (Some \<lparr> status = 400,
                 result_errors =
                   [\<lparr> ve_path = None,
                      ve_errorCode = Some ''required.openapi.validation'',
                      ve_message = ''media type is not specified'',
                      ve_location = Some ''body'',
                      ve_schema = None \<rparr>] \<rparr>)"
    by (simp add: validate_def run_checks_def classify_def then_do_def check_bodySchema_def
        check_requestBody_def no_media_type_match_def getSchemaForMediaType_def
        check_formData_def check_path_def check_headers_def check_query_def
        json_body_validator_def media_type_not_specified_def toOpenapiValidationError_def
        stripBodyInfo_def strip_prefix_dot_def replace_prefix_def Let_def)
  have lowered: "validate Parsed (json_body_validator True)
     \<lparr> body = Some (JObj []), headers = Some [(''content-type'', ''application/json'')],
       params = None, query = None \<rparr>
   = Inr None"
    by (simp add: validate_def run_checks_def classify_def then_do_def check_bodySchema_def
        check_requestBody_def media_type_match_def present_body_def run_predicate_def
        getSchemaForMediaType_def check_formData_def check_path_def check_headers_def
        check_query_def json_body_validator_def)
  from lower mixed lowered show ?thesis by simp
qed

section \<open>Reference resolution under \<^verbatim>\<open>properties\<close>\<close>

lemma then_fuel_returns:
  "then_fuel m f = Some (Inr y) \<Longrightarrow> \<exists>x. m = Some (Inr x) \<and> f x = Some (Inr y)"
  by (auto simp: then_fuel_def split: option.splits sum.splits)

text \<open>A loop that keeps the names of the members keeps the member found under a name.\<close>

lemma map_fuel_member:
  assumes "map_fuel g ps = Some (Inr qs)"
    and "\<And>k v r. g (k, v) = Some (Inr r) \<Longrightarrow> fst r = k"
    and "map_of ps name = Some v"
  shows "\<exists>v'. g (name, v) = Some (Inr (name, v')) \<and> map_of qs name = Some v'"
  using assms(1,3)
proof (induction ps arbitrary: qs)
  case Nil
  then show ?case by simp
next
  case (Cons p ps)
  obtain k w where p: "p = (k, w)" by (cases p)
  from Cons.prems(1) obtain q qs' where q: "g p = Some (Inr q)"
    and qs': "map_fuel g ps = Some (Inr qs')" and qs: "qs = q # qs'"
    by (auto dest!: then_fuel_returns)
  from assms(2) [of k w q] q p have key: "fst q = k" by simp
  show ?case
  proof (cases "k = name")
    case True
    with Cons.prems(2) p have "w = v" by simp
    with True q p key qs show ?thesis
      by (cases q) auto
  next
    case False
    with Cons.prems(2) p have "map_of ps name = Some v" by simp
    from Cons.IH [OF qs' this] False key qs show ?thesis
      by (cases q) auto
  qed
qed

text \<open>A \<^verbatim>\<open>$ref\<close> node without \<^verbatim>\<open>properties\<close> is left as it is by both calls of the loop.\<close>

lemma sanitize_ref_node:
  "map_of node ''properties'' = None
     \<Longrightarrow> sanitizeReadonlyPropertiesFromRequired (JObj node) = Inr (JObj node)"
  by (simp add: sanitizeReadonlyPropertiesFromRequired_def then_do_def)

lemma resolve_ref_node_in_place:
  assumes "resolveAndSanitizeRequestBodySchema fuel getSchema (JObj node) = Some (Inr (in_place, returned))"
    and "map_of node ''properties'' = None"
    and "map_of node ''$ref'' = Some reference"
  shows "in_place = JObj node"
proof (cases fuel)
  case 0
  with assms(1) show ?thesis by simp
next
  case (Suc n)
  with assms show ?thesis
    by (auto dest!: then_fuel_returns)
qed

text \<open>
  C9. Let the schema have a \<^verbatim>\<open>properties\<close> member in which some name holds a \<^verbatim>\<open>$ref\<close> node (an
  object with a \<^verbatim>\<open>$ref\<close> member and no \<^verbatim>\<open>properties\<close> member). When the call returns, it returns the
  schema it was given, and under that name \<^verbatim>\<open>properties\<close> still holds the \<^verbatim>\<open>$ref\<close> node, whatever
  the registry gives for the reference.
\<close>

theorem resolve_properties_keeps_ref_node:
  assumes "resolveAndSanitizeRequestBodySchema fuel getSchema (JObj kvs)
             = Some (Inr (in_place, returned))"
    and "map_of kvs ''properties'' = Some (JObj props)"
    and "map_of props name = Some (JObj node)"
    and "map_of node ''$ref'' = Some reference"
    and "map_of node ''properties'' = None"
  shows "returned = in_place
       \<and> (\<exists>props'. get_member returned ''properties'' = Some (JObj props')
                   \<and> map_of props' name = Some (JObj node))"
proof -
  from assms(1) obtain n where fuel: "fuel = Suc n"
    by (cases fuel) auto
  let ?self = "resolveAndSanitizeRequestBodySchema n getSchema"
  let ?g = "\<lambda>(property, prop).
              then_fuel (Some (sanitizeReadonlyPropertiesFromRequired prop)) (\<lambda>prop1.
              then_fuel (?self prop1) (\<lambda>(in_place, returned). Some (Inr (property, in_place))))"
  from assms(1,2) fuel obtain properties1
    where resolved: "resolve_properties ?self (JObj props) = Some (Inr properties1)"
      and result: "in_place = JObj (AList.update ''properties'' properties1 kvs)"
        "returned = JObj (AList.update ''properties'' properties1 kvs)"
    by (auto simp: Let_def dest!: then_fuel_returns)
  from resolved obtain members1 where loop: "map_fuel ?g props = Some (Inr members1)"
    and properties1: "properties1 = JObj members1"
    by (auto simp: resolve_properties_def dest!: then_fuel_returns)
  have "\<exists>v'. ?g (name, JObj node) = Some (Inr (name, v')) \<and> map_of members1 name = Some v'"
  proof (rule map_fuel_member [OF loop _ assms(3)])
    fix k v r
    assume "?g (k, v) = Some (Inr r)"
    then show "fst r = k" by (auto dest!: then_fuel_returns)
  qed
  then obtain v' where step: "?g (name, JObj node) = Some (Inr (name, v'))"
    and stored: "map_of members1 name = Some v'"
    by blast
  from step sanitize_ref_node [OF assms(5)]
  obtain ret where "?self (JObj node) = Some (Inr (v', ret))"
    by (auto dest!: then_fuel_returns)
  from resolve_ref_node_in_place [OF this assms(5,4)] have "v' = JObj node" .
  with stored result properties1 show ?thesis
    by (simp add: update_conv')
qed

text \<open>
  The schema \<^verbatim>\<open>{properties: {owner: {$ref: '#/components/schemas/User'}}}\<close> with a registry that
  knows the reference: the call returns, and \<^verbatim>\<open>owner\<close> is still the reference.
\<close>

theorem resolve_properties_keeps_ref_node_witness:
  "resolveAndSanitizeRequestBodySchema (Suc (Suc (Suc 0)))
     (\<lambda>reference. if reference = JStr ''#/components/schemas/User''
                   then Some (JObj [(''type'', JStr ''object'')]) else None)
     (JObj [(''properties'',
             JObj [(''owner'', JObj [(''$ref'', JStr ''#/components/schemas/User'')])])])
   = Some (Inr (JObj [(''properties'',
                       JObj [(''owner'', JObj [(''$ref'', JStr ''#/components/schemas/User'')])])],
                JObj [(''properties'',
                       JObj [(''owner'', JObj [(''$ref'', JStr ''#/components/schemas/User'')])])]))
   \<and> map_of [(''owner'', JObj [(''$ref'', JStr ''#/components/schemas/User'')])] ''owner''
       = Some (JObj [(''$ref'', JStr ''#/components/schemas/User'')])"
proof -
  let ?getSchema = "\<lambda>reference. if reference = JStr ''#/components/schemas/User''
                   then Some (JObj [(''type'', JStr ''object'')]) else None"
  let ?node = "[(''$ref'', JStr ''#/components/schemas/User'')]"
  let ?schema = "[(''properties'', JObj [(''owner'', JObj ?node)])]"
  have returns: "resolveAndSanitizeRequestBodySchema (Suc (Suc (Suc 0))) ?getSchema (JObj ?schema)
      = Some (Inr (JObj ?schema, JObj ?schema))"
    by (simp add: resolve_properties_def resolve_reference_def then_fuel_def then_do_def
        sanitizeReadonlyPropertiesFromRequired_def Let_def)
  from resolve_properties_keeps_ref_node
    [OF returns, of "[(''owner'', JObj ?node)]" "''owner''" ?node
      "JStr ''#/components/schemas/User''"]
    returns
  show ?thesis by simp
qed

section \<open>Nullable enumerations\<close>

lemma recursiveTransform_truthy:
  "truthy (recursiveTransformOpenAPIV3Definitions v) = truthy v"
  by (cases v) simp_all

lemma recursiveTransform_true:
  "recursiveTransformOpenAPIV3Definitions v = JBool True \<longleftrightarrow> v = JBool True"
  by (cases v) auto

lemma recursiveTransform_JObj:
  "recursiveTransformOpenAPIV3Definitions (JObj object) =
     JObj (map (\<lambda>(attr, v). (attr, recursiveTransformOpenAPIV3Definitions v))
             (nullable_rewrite object))"
proof -
  have "(if is_object v then recursiveTransformOpenAPIV3Definitions v else v)
      = recursiveTransformOpenAPIV3Definitions v" for v
    by (cases v) simp_all
  then show ?thesis by simp
qed

lemma recursiveTransform_JArr:
  "recursiveTransformOpenAPIV3Definitions (JArr xs) =
     JArr (map recursiveTransformOpenAPIV3Definitions xs)"
proof -
  have "(if is_object v then recursiveTransformOpenAPIV3Definitions v else v)
      = recursiveTransformOpenAPIV3Definitions v" for v
    by (cases v) simp_all
  then show ?thesis by simp
qed

lemma map_of_map_values:
  "map_of (map (\<lambda>(k, v). (k, f v)) kvs) k = map_option f (map_of kvs k)"
  by (induction kvs) auto

lemma nullable_rewrite_not_nullable: "\<not> nullable_node (nullable_rewrite object)"
  by (auto simp: nullable_node_def nullable_rewrite_def truthy_opt_def delete_conv'
      split: option.splits)

text \<open>The transformation reaches every node: no nullable node is left anywhere.\<close>

lemma recursiveTransform_nullable_free:
  "nullable_free (recursiveTransformOpenAPIV3Definitions j)"
proof (induction j rule: recursiveTransformOpenAPIV3Definitions.induct)
  case (1 object)
  let ?members = "map (\<lambda>(attr, v). (attr, recursiveTransformOpenAPIV3Definitions v))
                    (nullable_rewrite object)"
  have node: "\<not> nullable_node ?members"
    using nullable_rewrite_not_nullable [of object]
    by (auto simp: nullable_node_def map_of_map_values truthy_opt_def
        recursiveTransform_truthy recursiveTransform_true split: option.splits)
  have children: "list_all (\<lambda>(k, v). nullable_free v) ?members"
  proof -
    have "nullable_free (recursiveTransformOpenAPIV3Definitions v)"
      if "(attr, v) \<in> set (nullable_rewrite object)" for attr v
    proof (cases "is_object v")
      case True
      with 1 [OF that refl] show ?thesis by simp
    next
      case False
      then show ?thesis by (cases v) simp_all
    qed
    then show ?thesis by (auto simp: list_all_iff)
  qed
  from node children show ?case
    by (simp only: recursiveTransform_JObj nullable_free.simps) simp
next
  case (2 xs)
  have "nullable_free (recursiveTransformOpenAPIV3Definitions v)" if "v \<in> set xs" for v
  proof (cases "is_object v")
    case True
    with 2 [OF that] show ?thesis by simp
  next
    case False
    then show ?thesis by (cases v) simp_all
  qed
  then show ?case
    by (simp only: recursiveTransform_JArr nullable_free.simps) (simp add: list_all_iff)
qed simp_all

lemma recursiveTransform_scalars:
  "list_all (\<lambda>x. \<not> is_object x) vals
     \<Longrightarrow> recursiveTransformOpenAPIV3Definitions (JArr vals) = JArr vals"
  by (simp add: list_all_iff map_idI)

lemma has_type_null: "has_type ''null'' v \<longleftrightarrow> v = JNull"
  by (cases v) simp_all

lemma oneOf_accepts_two:
  "oneOf_accepts (Some (JArr [JObj [(''type'', JStr ''null'')],
                              JObj [(''type'', JStr name), (''enum'', JArr vals)]])) v
     \<longleftrightarrow> (v = JNull) \<noteq> (has_type name v \<and> v \<in> set vals)"
  by (auto simp: oneOf_accepts_def branch_accepts_def type_accepts_def enum_accepts_def
      has_type_null)

text \<open>
  C3, as stated, at the node
  \<^verbatim>\<open>{type: 'object', nullable: true, enum: [{type: 'string', nullable: true}]}\<close>: the traversal also
  enters the enum values, so the second branch of the result does not carry the original enum,
  and the original enum value is not accepted.
\<close>

theorem nullable_enum_counterexample:
  "recursiveTransformOpenAPIV3Definitions
     (JObj [(''type'', JStr ''object''), (''nullable'', JBool True),
            (''enum'', JArr [JObj [(''type'', JStr ''string''), (''nullable'', JBool True)]])])
   = JObj [(''oneOf'',
            JArr [JObj [(''type'', JStr ''null'')],
                  JObj [(''type'', JStr ''object''),
                        (''enum'', JArr [JObj [(''type'', JArr [JStr ''string'', JStr ''null''])]])]])]
   \<and> recursiveTransformOpenAPIV3Definitions
     (JObj [(''type'', JStr ''object''), (''nullable'', JBool True),
            (''enum'', JArr [JObj [(''type'', JStr ''string''), (''nullable'', JBool True)]])])
   \<noteq> JObj [(''oneOf'',
            JArr [JObj [(''type'', JStr ''null'')],
                  JObj [(''type'', JStr ''object''),
                        (''enum'', JArr [JObj [(''type'', JStr ''string''),
                                               (''nullable'', JBool True)]])]])]
   \<and> \<not> oneOf_accepts
         (get_member
            (recursiveTransformOpenAPIV3Definitions
               (JObj [(''type'', JStr ''object''), (''nullable'', JBool True),
                      (''enum'', JArr [JObj [(''type'', JStr ''string''),
                                             (''nullable'', JBool True)]])]))
            ''oneOf'')
         (JObj [(''type'', JStr ''string''), (''nullable'', JBool True)])"
proof -
  have result: "recursiveTransformOpenAPIV3Definitions
     (JObj [(''type'', JStr ''object''), (''nullable'', JBool True),
            (''enum'', JArr [JObj [(''type'', JStr ''string''), (''nullable'', JBool True)]])])
   = JObj [(''oneOf'',
            JArr [JObj [(''type'', JStr ''null'')],
                  JObj [(''type'', JStr ''object''),
                        (''enum'', JArr [JObj [(''type'', JArr [JStr ''string'', JStr ''null''])]])]])]"
    by (simp add: nullable_rewrite_def)
  show ?thesis
    unfolding result
    by (simp add: oneOf_accepts_def branch_accepts_def type_accepts_def enum_accepts_def)
qed

text \<open>
  C3, amended. For a node with a truthy \<^verbatim>\<open>type\<close>, \<^verbatim>\<open>nullable === true\<close> and a truthy \<^verbatim>\<open>enum\<close>, the
  normalized node has \<^verbatim>\<open>oneOf: [{type: 'null'}, {type: T, enum: E}]\<close> where \<open>T\<close> and \<open>E\<close> are the
  normalized type and enum, and has no \<^verbatim>\<open>type\<close>, \<^verbatim>\<open>enum\<close> or \<^verbatim>\<open>nullable\<close> member; every other member
  is the normalized original member, and no nullable node is left anywhere below. When the
  type is a type name and the enum values are scalars, \<open>T\<close> and \<open>E\<close> are the original type and
  enum, and the \<^verbatim>\<open>oneOf\<close> accepts exactly the values that are either \<^verbatim>\<open>null\<close> or an enum value of
  that type (and not both); so it accepts nothing outside \<^verbatim>\<open>null\<close> and the enum values.
\<close>

theorem nullable_enum_normalized:
  assumes "map_of object ''type'' = Some t" and "truthy t"
    and "map_of object ''nullable'' = Some (JBool True)"
    and "map_of object ''enum'' = Some e" and "truthy e"
  shows "\<exists>members.
           recursiveTransformOpenAPIV3Definitions (JObj object) = JObj members
         \<and> map_of members ''oneOf'' =
             Some (JArr [JObj [(''type'', JStr ''null'')],
                         JObj [(''type'', recursiveTransformOpenAPIV3Definitions t),
                               (''enum'', recursiveTransformOpenAPIV3Definitions e)]])
         \<and> map_of members ''type'' = None
         \<and> map_of members ''enum'' = None
         \<and> map_of members ''nullable'' = None
         \<and> (\<forall>k. k \<notin> {''type'', ''enum'', ''nullable'', ''oneOf''} \<longrightarrow>
                map_of members k = map_option recursiveTransformOpenAPIV3Definitions (map_of object k))
         \<and> nullable_free (JObj members)
         \<and> (\<forall>name vals v.
               t = JStr name \<and> e = JArr vals \<and> list_all (\<lambda>x. \<not> is_object x) vals \<longrightarrow>
                 map_of members ''oneOf'' =
                   Some (JArr [JObj [(''type'', JStr ''null'')],
                               JObj [(''type'', t), (''enum'', e)]])
               \<and> (oneOf_accepts (map_of members ''oneOf'') v
                    \<longleftrightarrow> (v = JNull) \<noteq> (has_type name v \<and> v \<in> set vals))
               \<and> (oneOf_accepts (map_of members ''oneOf'') v \<longrightarrow> v = JNull \<or> v \<in> set vals))"
proof -
  let ?new = "JArr [JObj [(''type'', JStr ''null'')], JObj [(''type'', t), (''enum'', e)]]"
  let ?rewritten = "AList.delete ''nullable'' (AList.delete ''enum'' (AList.delete ''type''
                      (AList.update ''oneOf'' ?new object)))"
  let ?members = "map (\<lambda>(attr, v). (attr, recursiveTransformOpenAPIV3Definitions v)) ?rewritten"
  from assms have rewrite: "nullable_rewrite object = ?rewritten"
    by (simp add: nullable_rewrite_def)
  then have result: "recursiveTransformOpenAPIV3Definitions (JObj object) = JObj ?members"
    by (simp only: recursiveTransform_JObj)
  have lookup: "map_of ?rewritten =
      ((map_of object)(''oneOf'' \<mapsto> ?new))(''type'' := None, ''enum'' := None, ''nullable'' := None)"
    by (simp add: delete_conv' update_conv')
  have new: "recursiveTransformOpenAPIV3Definitions ?new =
      JArr [JObj [(''type'', JStr ''null'')],
            JObj [(''type'', recursiveTransformOpenAPIV3Definitions t),
                  (''enum'', recursiveTransformOpenAPIV3Definitions e)]]"
    by (simp add: recursiveTransform_JArr recursiveTransform_JObj nullable_rewrite_def
        del: recursiveTransformOpenAPIV3Definitions.simps(1,2))
  have oneOf: "map_of ?members ''oneOf'' =
             Some (JArr [JObj [(''type'', JStr ''null'')],
                         JObj [(''type'', recursiveTransformOpenAPIV3Definitions t),
                               (''enum'', recursiveTransformOpenAPIV3Definitions e)]])"
    unfolding map_of_map_values lookup using new by simp
  have removed: "map_of ?members ''type'' = None" "map_of ?members ''enum'' = None"
    "map_of ?members ''nullable'' = None"
    unfolding map_of_map_values lookup by simp_all
  have others: "map_of ?members k = map_option recursiveTransformOpenAPIV3Definitions (map_of object k)"
    if "k \<notin> {''type'', ''enum'', ''nullable'', ''oneOf''}" for k
    unfolding map_of_map_values lookup using that by simp
  have free: "nullable_free (JObj ?members)"
    using recursiveTransform_nullable_free [of "JObj object"] by (simp only: result)
  have plain: "map_of ?members ''oneOf'' = Some (JArr [JObj [(''type'', JStr ''null'')],
                               JObj [(''type'', t), (''enum'', e)]])
      \<and> (oneOf_accepts (map_of ?members ''oneOf'') v
            \<longleftrightarrow> (v = JNull) \<noteq> (has_type name v \<and> v \<in> set vals))
      \<and> (oneOf_accepts (map_of ?members ''oneOf'') v \<longrightarrow> v = JNull \<or> v \<in> set vals)"
    if "t = JStr name" "e = JArr vals" "list_all (\<lambda>x. \<not> is_object x) vals" for name vals v
  proof -
    from that recursiveTransform_scalars [of vals]
    have same: "map_of ?members ''oneOf'' = Some (JArr [JObj [(''type'', JStr ''null'')],
                               JObj [(''type'', JStr name), (''enum'', JArr vals)]])"
      unfolding oneOf by simp
    from same that(1,2) oneOf_accepts_two [of name vals v] show ?thesis
      by (auto simp only:)
  qed
  show ?thesis
  proof (intro exI [of _ ?members] conjI)
    show "recursiveTransformOpenAPIV3Definitions (JObj object) = JObj ?members"
      by (rule result)
    show "map_of ?members ''oneOf'' =
             Some (JArr [JObj [(''type'', JStr ''null'')],
                         JObj [(''type'', recursiveTransformOpenAPIV3Definitions t),
                               (''enum'', recursiveTransformOpenAPIV3Definitions e)]])"
      by (rule oneOf)
    show "map_of ?members ''type'' = None" by (rule removed)
    show "map_of ?members ''enum'' = None" by (rule removed)
    show "map_of ?members ''nullable'' = None" by (rule removed)
    show "\<forall>k. k \<notin> {''type'', ''enum'', ''nullable'', ''oneOf''} \<longrightarrow>
            map_of ?members k = map_option recursiveTransformOpenAPIV3Definitions (map_of object k)"
      using others by blast
    show "nullable_free (JObj ?members)" by (rule free)
    show "\<forall>name vals v.
               t = JStr name \<and> e = JArr vals \<and> list_all (\<lambda>x. \<not> is_object x) vals \<longrightarrow>
                 map_of ?members ''oneOf'' =
                   Some (JArr [JObj [(''type'', JStr ''null'')],
                               JObj [(''type'', t), (''enum'', e)]])
               \<and> (oneOf_accepts (map_of ?members ''oneOf'') v
                    \<longleftrightarrow> (v = JNull) \<noteq> (has_type name v \<and> v \<in> set vals))
               \<and> (oneOf_accepts (map_of ?members ''oneOf'') v \<longrightarrow> v = JNull \<or> v \<in> set vals)"
      using plain by blast
  qed
qed

theorem nullable_enum_normalized_witness:
  "recursiveTransformOpenAPIV3Definitions
     (JObj [(''type'', JStr ''string''), (''nullable'', JBool True),
            (''enum'', JArr [JStr ''asc'', JStr ''desc'']), (''description'', JStr ''order'')])
   = JObj [(''description'', JStr ''order''),
           (''oneOf'', JArr [JObj [(''type'', JStr ''null'')],
                             JObj [(''type'', JStr ''string''),
                                   (''enum'', JArr [JStr ''asc'', JStr ''desc''])]])]
   \<and> oneOf_accepts (Some (JArr [JObj [(''type'', JStr ''null'')],
                                 JObj [(''type'', JStr ''string''),
                                       (''enum'', JArr [JStr ''asc'', JStr ''desc''])]])) JNull
   \<and> oneOf_accepts (Some (JArr [JObj [(''type'', JStr ''null'')],
                                 JObj [(''type'', JStr ''string''),
                                       (''enum'', JArr [JStr ''asc'', JStr ''desc''])]])) (JStr ''desc'')
   \<and> \<not> oneOf_accepts (Some (JArr [JObj [(''type'', JStr ''null'')],
                                   JObj [(''type'', JStr ''string''),
                                         (''enum'', JArr [JStr ''asc'', JStr ''desc''])]])) (JStr ''up'')"
proof -
  let ?object = "[(''type'', JStr ''string''), (''nullable'', JBool True),
            (''enum'', JArr [JStr ''asc'', JStr ''desc'']), (''description'', JStr ''order'')]"
  have result: "recursiveTransformOpenAPIV3Definitions (JObj ?object)
   = JObj [(''description'', JStr ''order''),
           (''oneOf'', JArr [JObj [(''type'', JStr ''null'')],
                             JObj [(''type'', JStr ''string''),
                                   (''enum'', JArr [JStr ''asc'', JStr ''desc''])]])]"
    by (simp add: nullable_rewrite_def)
  have node: "map_of ?object ''type'' = Some (JStr ''string'')" "truthy (JStr ''string'')"
    "map_of ?object ''nullable'' = Some (JBool True)"
    "map_of ?object ''enum'' = Some (JArr [JStr ''asc'', JStr ''desc''])"
    "truthy (JArr [JStr ''asc'', JStr ''desc''])"
    by simp_all
  from nullable_enum_normalized [OF node]
  obtain members where members: "recursiveTransformOpenAPIV3Definitions (JObj ?object) = JObj members"
    and plain: "\<forall>name vals v.
        JStr ''string'' = JStr name \<and> JArr [JStr ''asc'', JStr ''desc''] = JArr vals
          \<and> list_all (\<lambda>x. \<not> is_object x) vals \<longrightarrow>
            map_of members ''oneOf'' =
              Some (JArr [JObj [(''type'', JStr ''null'')],
                          JObj [(''type'', JStr ''string''),
                                (''enum'', JArr [JStr ''asc'', JStr ''desc''])]])
          \<and> (oneOf_accepts (map_of members ''oneOf'') v
               \<longleftrightarrow> (v = JNull) \<noteq> (has_type name v \<and> v \<in> set vals))
          \<and> (oneOf_accepts (map_of members ''oneOf'') v \<longrightarrow> v = JNull \<or> v \<in> set vals)"
    by blast
  have scalars: "JStr ''string'' = JStr ''string''
      \<and> JArr [JStr ''asc'', JStr ''desc''] = JArr [JStr ''asc'', JStr ''desc'']
      \<and> list_all (\<lambda>x. \<not> is_object x) [JStr ''asc'', JStr ''desc'']"
    by simp
  note inst = plain [rule_format, OF scalars]
  from inst have oneOf: "map_of members ''oneOf'' =
      Some (JArr [JObj [(''type'', JStr ''null'')],
                  JObj [(''type'', JStr ''string''),
                        (''enum'', JArr [JStr ''asc'', JStr ''desc''])]])"
    by (rule conjunct1)
  have accepts: "oneOf_accepts (Some (JArr [JObj [(''type'', JStr ''null'')],
                          JObj [(''type'', JStr ''string''),
                                (''enum'', JArr [JStr ''asc'', JStr ''desc''])]])) v
               \<longleftrightarrow> (v = JNull) \<noteq> (has_type ''string'' v \<and> v \<in> set [JStr ''asc'', JStr ''desc''])"
    for v
    using inst [where v = v] unfolding oneOf by (rule conjunct1 [OF conjunct2])
  from accepts [of JNull] accepts [of "JStr ''desc''"] accepts [of "JStr ''up''"] result
  show ?thesis by simp
qed

end
